theory Spec2Isabelle
  imports Main "HOL-Library.Word"
begin

unbundle bit_operations_syntax

section \<open>Protocol constants (ota\_host.py, classes Command, Response, VersionInfo)\<close>

type_synonym byte = "8 word"

datatype Command = INIT_UPDATE | SEND_PACKET | FINISH_UPDATE | GET_VERSION | ABORT_UPDATE

fun command_value :: "Command \<Rightarrow> byte" where
  "command_value INIT_UPDATE = 0x01"
| "command_value SEND_PACKET = 0x02"
| "command_value FINISH_UPDATE = 0x03"
| "command_value GET_VERSION = 0x04"
| "command_value ABORT_UPDATE = 0x05"

datatype Response = ACK | NACK | READY | CHECKSUM_ERROR | VERSION_INFO | ERROR

fun response_value :: "Response \<Rightarrow> byte" where
  "response_value ACK = 0x10"
| "response_value NACK = 0x11"
| "response_value READY = 0x12"
| "response_value CHECKSUM_ERROR = 0x13"
| "response_value VERSION_INFO = 0x14"
| "response_value ERROR = 0x15"

text \<open>The enum lookup \<^verbatim>\<open>Response(response_code)\<close>; \<open>None\<close> is its ValueError.\<close>

definition Response_of :: "byte \<Rightarrow> Response option" where
  "Response_of c =
     (if c = 0x10 then Some ACK
      else if c = 0x11 then Some NACK
      else if c = 0x12 then Some READY
      else if c = 0x13 then Some CHECKSUM_ERROR
      else if c = 0x14 then Some VERSION_INFO
      else if c = 0x15 then Some ERROR
      else None)"

record VersionInfo =
  current_version :: nat
  backup_version :: nat
  current_address :: nat
  backup_address :: nat

text \<open>The fields that \<^verbatim>\<open>OTAHost.__init__\<close> fixes.\<close>

definition packet_size :: nat where "packet_size = 16"
definition max_retries :: nat where "max_retries = 3"
definition version_1_address :: nat where "version_1_address = 0x200000"
definition version_2_address :: nat where "version_2_address = 0x300000"

section \<open>The serial port\<close>

text \<open>
  The port is the only state the host threads through its calls. What the device will
  deliver is a list of events: a byte, a silence that outlasts the read timeout, or an I/O
  fault that makes the read raise. Every frame handed to \<^verbatim>\<open>write\<close> is appended to
  \<open>tx\<close>. \<open>wfail\<close> schedules the writes that raise: one flag per call of
  \<^verbatim>\<open>write\<close>, no flag left meaning success.
\<close>

datatype rx_event = Byte byte | Timeout | IOFault

record serial =
  is_open :: bool
  rx :: "rx_event list"
  tx :: "byte list list"
  wfail :: "bool list"

text \<open>
  \<^verbatim>\<open>serial.read(n)\<close>: blocks until \<open>n\<close> bytes have come or the timeout passes, and
  returns what it has. \<open>None\<close> is an exception of the driver.
\<close>

fun serial_read :: "nat \<Rightarrow> rx_event list \<Rightarrow> byte list option \<times> rx_event list" where
  "serial_read 0 evs = (Some [], evs)"
| "serial_read (Suc n) [] = (Some [], [])"
| "serial_read (Suc n) (Timeout # evs) = (Some [], evs)"
| "serial_read (Suc n) (IOFault # evs) = (None, evs)"
| "serial_read (Suc n) (Byte b # evs) =
     (case serial_read n evs of
        (None, r) \<Rightarrow> (None, r)
      | (Some bs, r) \<Rightarrow> (Some (b # bs), r))"

text \<open>\<^verbatim>\<open>serial.write(packet); serial.flush()\<close>: \<open>False\<close> when one of them raises.\<close>

definition serial_write :: "serial \<Rightarrow> byte list \<Rightarrow> bool \<times> serial" where
  "serial_write s packet =
     (case wfail s of
        [] \<Rightarrow> (True, s\<lparr>tx := tx s @ [packet]\<rparr>)
      | f # fs \<Rightarrow>
          if f then (False, s\<lparr>wfail := fs\<rparr>)
          else (True, s\<lparr>tx := tx s @ [packet], wfail := fs\<rparr>))"

section \<open>Frames (send\_command, read\_response)\<close>

text \<open>The loop \<^verbatim>\<open>for byte in packet: checksum ^= byte\<close>, from a starting value.\<close>

primrec xor_checksum :: "byte \<Rightarrow> byte list \<Rightarrow> byte" where
  "xor_checksum c [] = c"
| "xor_checksum c (b # bs) = xor_checksum (c XOR b) bs"

text \<open>
  The frame \<^verbatim>\<open>send_command\<close> builds around a code byte:
  \<^verbatim>\<open>struct.pack('BB', code, length) + data + checksum\<close>. \<open>None\<close> is the struct.error
  that a length above 255 raises.
\<close>

definition frame_bytes :: "byte \<Rightarrow> byte list \<Rightarrow> byte list" where
  "frame_bytes code data =
     (let packet = [code, of_nat (length data)] @ data
      in packet @ [xor_checksum 0 packet])"

definition build_packet :: "byte \<Rightarrow> byte list \<Rightarrow> byte list option" where
  "build_packet code data =
     (if length data > 255 then None else Some (frame_bytes code data))"

definition send_command :: "serial \<Rightarrow> Command \<Rightarrow> byte list \<Rightarrow> bool \<times> serial" where
  "send_command s cmd data =
     (if \<not> is_open s then (False, s)
      else
        case build_packet (command_value cmd) data of
          None \<Rightarrow> (False, s)
        | Some packet \<Rightarrow> serial_write s packet)"

text \<open>
  \<^verbatim>\<open>read_response\<close> returns \<^verbatim>\<open>(None, b'')\<close> from six places, each after a message of its
  own. \<open>read_frame\<close> keeps the place; \<open>read_response\<close> is what the caller gets.
\<close>

datatype rx_failure =
    NotOpen
  | HeaderShort
  | ChecksumShort
  | ChecksumMismatch
  | UnknownCode
  | ReadException

definition read_frame :: "serial \<Rightarrow> (rx_failure + Response \<times> byte list) \<times> serial" where
  "read_frame s =
     (if \<not> is_open s then (Inl NotOpen, s)
      else
        (case serial_read 2 (rx s) of
           (None, r1) \<Rightarrow> (Inl ReadException, s\<lparr>rx := r1\<rparr>)
         | (Some header, r1) \<Rightarrow>
             (if length header \<noteq> 2 then (Inl HeaderShort, s\<lparr>rx := r1\<rparr>)
              else
                (let response_code = header ! 0;
                     len = unat (header ! 1)
                 in
                   (case (if len > 0 then serial_read len r1 else (Some [], r1)) of
                      (None, r2) \<Rightarrow> (Inl ReadException, s\<lparr>rx := r2\<rparr>)
                    | (Some data, r2) \<Rightarrow>
                        (case serial_read 1 r2 of
                           (None, r3) \<Rightarrow> (Inl ReadException, s\<lparr>rx := r3\<rparr>)
                         | (Some checksum_byte, r3) \<Rightarrow>
                             (if length checksum_byte \<noteq> 1
                              then (Inl ChecksumShort, s\<lparr>rx := r3\<rparr>)
                              else if xor_checksum (response_code XOR header ! 1) data
                                        \<noteq> checksum_byte ! 0
                              then (Inl ChecksumMismatch, s\<lparr>rx := r3\<rparr>)
                              else
                                (case Response_of response_code of
                                   None \<Rightarrow> (Inl UnknownCode, s\<lparr>rx := r3\<rparr>)
                                 | Some response \<Rightarrow>
                                     (Inr (response, data), s\<lparr>rx := r3\<rparr>)))))))))"

definition read_response :: "serial \<Rightarrow> (Response option \<times> byte list) \<times> serial" where
  "read_response s =
     (case read_frame s of
        (Inl _, s') \<Rightarrow> ((None, []), s')
      | (Inr (response, data), s') \<Rightarrow> ((Some response, data), s'))"

section \<open>Packing (struct.pack, struct.unpack)\<close>

text \<open>
  An unsigned little-endian field of \<open>w\<close> bytes: \<open>le_bytes\<close> gives the bytes,
  \<open>pack_uint\<close> is the packing, \<open>None\<close> being the struct.error for a value that does
  not fit.
\<close>

definition le_bytes :: "nat \<Rightarrow> int \<Rightarrow> byte list" where
  "le_bytes w v = map (\<lambda>i. of_int (v div 256 ^ i)) [0..<w]"

definition pack_uint :: "nat \<Rightarrow> int \<Rightarrow> byte list option" where
  "pack_uint w v = (if 0 \<le> v \<and> v < 256 ^ w then Some (le_bytes w v) else None)"

primrec unpack_uint :: "byte list \<Rightarrow> nat" where
  "unpack_uint [] = 0"
| "unpack_uint (b # bs) = unat b + 256 * unpack_uint bs"

text \<open>\<^verbatim>\<open>struct.pack('<III', new_version, target_address, file_size)\<close>\<close>

definition pack_III :: "int \<Rightarrow> int \<Rightarrow> int \<Rightarrow> byte list option" where
  "pack_III a b c =
     (case (pack_uint 4 a, pack_uint 4 b, pack_uint 4 c) of
        (Some x, Some y, Some z) \<Rightarrow> Some (x @ y @ z)
      | _ \<Rightarrow> None)"

text \<open>\<^verbatim>\<open>struct.pack('<HB', packet_num, checksum)\<close>\<close>

definition pack_HB :: "nat \<Rightarrow> byte \<Rightarrow> byte list option" where
  "pack_HB n c =
     (case pack_uint 2 (int n) of
        None \<Rightarrow> None
      | Some x \<Rightarrow> Some (x @ [c]))"

text \<open>\<^verbatim>\<open>struct.unpack('<IIII', data)\<close> on 16 bytes, into the dataclass.\<close>

definition unpack_version_info :: "byte list \<Rightarrow> VersionInfo" where
  "unpack_version_info data =
     \<lparr>current_version = unpack_uint (take 4 data),
      backup_version = unpack_uint (take 4 (drop 4 data)),
      current_address = unpack_uint (take 4 (drop 8 data)),
      backup_address = unpack_uint (take 4 (drop 12 data))\<rparr>"

text \<open>
  Shorthand for the statements below: the frame the host writes for a command, the bytes
  the device delivers for a response, and the frame of packet \<open>packet_num\<close>.
\<close>

abbreviation command_frame :: "Command \<Rightarrow> byte list \<Rightarrow> byte list" where
  "command_frame cmd data \<equiv> frame_bytes (command_value cmd) data"

abbreviation response_frame :: "Response \<Rightarrow> byte list \<Rightarrow> rx_event list" where
  "response_frame response data \<equiv> map Byte (frame_bytes (response_value response) data)"

section \<open>The version query (get\_version\_info)\<close>

definition get_version_info :: "serial \<Rightarrow> VersionInfo option \<times> serial" where
  "get_version_info s =
     (case send_command s GET_VERSION [] of
        (False, s1) \<Rightarrow> (None, s1)
      | (True, s1) \<Rightarrow>
          (case read_response s1 of
             ((response, data), s2) \<Rightarrow>
               if response \<noteq> Some VERSION_INFO \<or> length data \<noteq> 16 then (None, s2)
               else (Some (unpack_version_info data), s2)))"

section \<open>The update session (send\_update\_file)\<close>

text \<open>Lines 184 to 190: the bank the new image goes to.\<close>

definition target_address :: "VersionInfo \<Rightarrow> nat" where
  "target_address version_info =
     (if current_version version_info = 0 then version_1_address
      else if current_address version_info = version_1_address then version_2_address
      else version_1_address)"

text \<open>Shorthand for the statements below: the INIT\_UPDATE frame of a session.\<close>

abbreviation init_frame :: "int \<Rightarrow> VersionInfo \<Rightarrow> byte list \<Rightarrow> byte list" where
  "init_frame new_version version_info file_data \<equiv>
     command_frame INIT_UPDATE
       (le_bytes 4 new_version @ le_bytes 4 (int (target_address version_info)) @
        le_bytes 4 (int (length file_data)))"

text \<open>\<^verbatim>\<open>str(n)\<close> for the f-string of an unknown error code.\<close>

fun str_nat :: "nat \<Rightarrow> string" where
  "str_nat n =
     (if n < 10 then [char_of (48 + n)]
      else str_nat (n div 10) @ [char_of (48 + n mod 10)])"

text \<open>The dictionary \<^verbatim>\<open>error_messages\<close> and its \<^verbatim>\<open>get\<close> with a default.\<close>

definition error_messages :: "nat \<rightharpoonup> string" where
  "error_messages =
     [1 \<mapsto> ''Bad length'',
      2 \<mapsto> ''Update already in progress'',
      3 \<mapsto> ''Invalid file size'',
      4 \<mapsto> ''Invalid target address'',
      5 \<mapsto> ''Flash erase failed'']"

definition error_message :: "byte \<Rightarrow> string" where
  "error_message err_code =
     (case error_messages (unat err_code) of
        Some m \<Rightarrow> m
      | None \<Rightarrow> ''Unknown error '' @ str_nat (unat err_code))"

text \<open>
  Where the session ends. \<^verbatim>\<open>send_update_file\<close> returns True at one place and False at
  many, each after a message of its own; \<open>Raised\<close> is the struct.error that nothing
  catches. \<open>Aborted\<close> is the return at line 285, after the ABORT\_UPDATE command; its
  argument is the packet number. \<open>DeviceError\<close> carries the text printed after
  \<^verbatim>\<open>ESP32 error:\<close>.
\<close>

datatype failure =
    FileNotFound
  | NoVersionInfo
  | FileReadFailed
  | InitSendFailed
  | DeviceError string
  | GenericDeviceError
  | InitRejected
  | NotReady
  | FinishSendFailed
  | FinalizationFailed

datatype outcome = Completed | Failed failure | Aborted nat | Raised

fun returned :: "outcome \<Rightarrow> bool option" where
  "returned Completed = Some True"
| "returned (Failed _) = Some False"
| "returned (Aborted _) = Some False"
| "returned Raised = None"

text \<open>
  Lines 213 to 240, the loop \<^verbatim>\<open>for attempt in range(self.max_retries)\<close> with its
  \<^verbatim>\<open>else\<close>: \<open>None\<close> is the \<^verbatim>\<open>break\<close> on READY, the argument counts the attempts left.
\<close>

fun wait_ready :: "nat \<Rightarrow> serial \<Rightarrow> failure option \<times> serial" where
  "wait_ready 0 s = (Some NotReady, s)"
| "wait_ready (Suc n) s =
     (case read_response s of
        ((response, data), s') \<Rightarrow>
          if response = Some READY then (None, s')
          else if response = Some ERROR then
            (if length data \<ge> 1 then (Some (DeviceError (error_message (data ! 0))), s')
             else (Some GenericDeviceError, s'))
          else if response = Some NACK then (Some InitRejected, s')
          else wait_ready n s')"

text \<open>Line 243.\<close>

definition total_packets :: "nat \<Rightarrow> nat" where
  "total_packets file_size = (file_size + packet_size - 1) div packet_size"

text \<open>Lines 247 to 253: the slice \<^verbatim>\<open>file_data[offset:end_offset]\<close> and its padding.\<close>

definition packet_data :: "byte list \<Rightarrow> nat \<Rightarrow> byte list" where
  "packet_data file_data packet_num =
     (let offset = packet_num * packet_size;
          end_offset = min (offset + packet_size) (length file_data);
          chunk = take (end_offset - offset) (drop offset file_data)
      in if length chunk < packet_size
         then chunk @ replicate (packet_size - length chunk) 0xFF
         else chunk)"

text \<open>Lines 256 to 261; \<open>None\<close> when \<^verbatim>\<open>struct.pack('<HB', ...)\<close> raises.\<close>

definition packet_content :: "byte list \<Rightarrow> nat \<Rightarrow> byte list option" where
  "packet_content file_data packet_num =
     (let pd = packet_data file_data packet_num;
          checksum = xor_checksum 0 pd
      in case pack_HB packet_num checksum of
           None \<Rightarrow> None
         | Some hdr \<Rightarrow> Some (hdr @ pd))"

text \<open>Shorthand for the statements below: the SEND\_PACKET frame of a packet number.\<close>

abbreviation packet_frame :: "byte list \<Rightarrow> nat \<Rightarrow> byte list" where
  "packet_frame file_data packet_num \<equiv>
     command_frame SEND_PACKET
       (le_bytes 2 (int packet_num) @
        xor_checksum 0 (packet_data file_data packet_num) # packet_data file_data packet_num)"

text \<open>
  Lines 263 to 280, the loop \<^verbatim>\<open>for retry in range(self.max_retries)\<close>: the result is
  \<^verbatim>\<open>success\<close>, the argument counts the attempts left.
\<close>

fun send_attempts :: "nat \<Rightarrow> byte list \<Rightarrow> serial \<Rightarrow> bool \<times> serial" where
  "send_attempts 0 pc s = (False, s)"
| "send_attempts (Suc n) pc s =
     (case send_command s SEND_PACKET pc of
        (False, s1) \<Rightarrow> send_attempts n pc s1
      | (True, s1) \<Rightarrow>
          (case read_response s1 of
             ((response, _), s2) \<Rightarrow>
               if response = Some ACK then (True, s2)
               else if response = Some CHECKSUM_ERROR then send_attempts n pc s2
               else if response = Some NACK then (False, s2)
               else send_attempts n pc s2))"

text \<open>
  Lines 246 to 290, the loop over \<^verbatim>\<open>range(total_packets)\<close>, given the packet numbers
  still to send: \<open>None\<close> when the loop runs to its end, otherwise how the session ends
  inside it.
\<close>

fun send_packets :: "byte list \<Rightarrow> nat list \<Rightarrow> serial \<Rightarrow> outcome option \<times> serial" where
  "send_packets file_data [] s = (None, s)"
| "send_packets file_data (packet_num # rest) s =
     (case packet_content file_data packet_num of
        None \<Rightarrow> (Some Raised, s)
      | Some pc \<Rightarrow>
          (case send_attempts max_retries pc s of
             (False, s1) \<Rightarrow> (Some (Aborted packet_num), snd (send_command s1 ABORT_UPDATE []))
           | (True, s1) \<Rightarrow> send_packets file_data rest s1))"

text \<open>Lines 295 to 305.\<close>

definition finish_update :: "serial \<Rightarrow> outcome \<times> serial" where
  "finish_update s =
     (case send_command s FINISH_UPDATE [] of
        (False, s1) \<Rightarrow> (Failed FinishSendFailed, s1)
      | (True, s1) \<Rightarrow>
          (case read_response s1 of
             ((response, _), s2) \<Rightarrow>
               if response \<noteq> Some ACK then (Failed FinalizationFailed, s2)
               else (Completed, s2)))"

text \<open>
  The file at \<^verbatim>\<open>filepath\<close>: absent, present but not readable, or its bytes.
\<close>

datatype file_state = Missing | Unreadable | Content "byte list"

definition send_update_file :: "serial \<Rightarrow> file_state \<Rightarrow> int \<Rightarrow> outcome \<times> serial" where
  "send_update_file s file new_version =
     (if file = Missing then (Failed FileNotFound, s)
      else
        case get_version_info s of
          (None, s1) \<Rightarrow> (Failed NoVersionInfo, s1)
        | (Some version_info, s1) \<Rightarrow>
            (case file of
               Missing \<Rightarrow> (Failed FileNotFound, s1)
             | Unreadable \<Rightarrow> (Failed FileReadFailed, s1)
             | Content file_data \<Rightarrow>
                 (case pack_III new_version (int (target_address version_info))
                         (int (length file_data)) of
                    None \<Rightarrow> (Raised, s1)
                  | Some init_data \<Rightarrow>
                      (case send_command s1 INIT_UPDATE init_data of
                         (False, s2) \<Rightarrow> (Failed InitSendFailed, s2)
                       | (True, s2) \<Rightarrow>
                           (case wait_ready max_retries s2 of
                              (Some f, s3) \<Rightarrow> (Failed f, s3)
                            | (None, s3) \<Rightarrow>
                                (case send_packets file_data
                                        [0..<total_packets (length file_data)] s3 of
                                   (Some out, s4) \<Rightarrow> (out, s4)
                                 | (None, s4) \<Rightarrow> finish_update s4))))))"

section \<open>Auxiliary facts\<close>

subsection \<open>Reading a frame\<close>

lemma serial_read_bytes: "serial_read (length xs) (map Byte xs @ rest) = (Some xs, rest)"
  by (induction xs) auto

lemma xor_checksum_append: "xor_checksum c (xs @ ys) = xor_checksum (xor_checksum c xs) ys"
  by (induction xs arbitrary: c) auto

lemma Response_of_value: "Response_of (response_value r) = Some r"
  by (cases r) (simp_all add: Response_of_def)

lemma read_frame_frame:
  assumes "is_open s" "length payload \<le> 255" "rx s = response_frame r payload @ rest"
  shows "read_frame s = (Inr (r, payload), s\<lparr>rx := rest\<rparr>)"
proof -
  let ?c = "response_value r"
  let ?l = "of_nat (length payload) :: byte"
  have len: "unat ?l = length payload"
    using assms(2) by (simp add: unat_of_nat)
  have rx1: "rx s = Byte ?c # Byte ?l # (map Byte payload @ Byte (xor_checksum (?c XOR ?l) payload) # rest)"
    using assms(3) by (simp add: frame_bytes_def xor_checksum_append)
  have hd: "serial_read 2 (rx s) = (Some [?c, ?l], map Byte payload @ Byte (xor_checksum (?c XOR ?l) payload) # rest)"
    unfolding rx1 by (simp add: numeral_2_eq_2)
  have body: "serial_read (length payload) (map Byte payload @ Byte (xor_checksum (?c XOR ?l) payload) # rest)
      = (Some payload, Byte (xor_checksum (?c XOR ?l) payload) # rest)"
    by (rule serial_read_bytes)
  show ?thesis
    using assms(1) len
    by (cases "payload = []") (simp_all add: read_frame_def hd body Response_of_value)
qed

lemma read_response_frame:
  assumes "is_open s" "length payload \<le> 255" "rx s = response_frame r payload @ rest"
  shows "read_response s = ((Some r, payload), s\<lparr>rx := rest\<rparr>)"
  by (simp add: read_response_def read_frame_frame [OF assms])

subsection \<open>One exchange\<close>

lemma send_command_ok:
  assumes "is_open s" "wfail s = []" "length data \<le> 255"
  shows "send_command s cmd data = (True, s\<lparr>tx := tx s @ [command_frame cmd data]\<rparr>)"
  using assms by (simp add: send_command_def build_packet_def serial_write_def)

lemma get_version_info_ok:
  assumes "is_open s" "wfail s = []" "length vd = 16"
    and "rx s = response_frame VERSION_INFO vd @ rest"
  shows "get_version_info s =
    (Some (unpack_version_info vd), s\<lparr>tx := tx s @ [command_frame GET_VERSION []], rx := rest\<rparr>)"
proof -
  let ?s1 = "s\<lparr>tx := tx s @ [command_frame GET_VERSION []]\<rparr>"
  have snd: "send_command s GET_VERSION [] = (True, ?s1)"
    using assms(1,2) by (simp add: send_command_ok)
  have "read_response ?s1 = ((Some VERSION_INFO, vd), ?s1\<lparr>rx := rest\<rparr>)"
    by (rule read_response_frame) (use assms in simp_all)
  then show ?thesis
    using assms(3) by (simp add: get_version_info_def snd)
qed

lemma wait_ready_READY:
  assumes "is_open s" "rx s = response_frame READY [] @ rest"
  shows "wait_ready (Suc n) s = (None, s\<lparr>rx := rest\<rparr>)"
proof -
  have "read_response s = ((Some READY, []), s\<lparr>rx := rest\<rparr>)"
    by (rule read_response_frame) (use assms in simp_all)
  then show ?thesis by simp
qed

subsection \<open>Packets\<close>

lemma length_le_bytes: "length (le_bytes w v) = w"
  by (simp add: le_bytes_def)

lemma length_packet_data16: "length (packet_data fd k) = 16"
  by (auto simp: packet_data_def packet_size_def Let_def min_def)

lemma packet_content_Some:
  assumes "k < 65536"
  shows "packet_content fd k =
    Some (le_bytes 2 (int k) @ xor_checksum 0 (packet_data fd k) # packet_data fd k)"
  using assms by (simp add: packet_content_def pack_HB_def pack_uint_def Let_def)

lemma packet_content_None:
  assumes "65536 \<le> k"
  shows "packet_content fd k = None"
  using assms by (simp add: packet_content_def pack_HB_def pack_uint_def Let_def)

lemma length_packet_bytes:
  "length (le_bytes 2 (int k) @ xor_checksum 0 (packet_data fd k) # packet_data fd k) = 19"
  by (simp add: length_le_bytes length_packet_data16)

subsection \<open>The retry loop and the packet loop\<close>

lemma send_attempts_step:
  assumes "is_open s" "wfail s = []" "length pc \<le> 255"
    and "rx s = response_frame r payload @ rest" "length payload \<le> 255"
  shows "send_attempts (Suc n) pc s =
    (let s' = s\<lparr>tx := tx s @ [command_frame SEND_PACKET pc], rx := rest\<rparr>
     in if r = ACK then (True, s')
        else if r = NACK then (False, s')
        else send_attempts n pc s')"
proof -
  let ?s1 = "s\<lparr>tx := tx s @ [command_frame SEND_PACKET pc]\<rparr>"
  have snd: "send_command s SEND_PACKET pc = (True, ?s1)"
    using assms(1-3) by (simp add: send_command_ok)
  have "read_response ?s1 = ((Some r, payload), ?s1\<lparr>rx := rest\<rparr>)"
    by (rule read_response_frame) (use assms in simp_all)
  then show ?thesis
    by (simp add: snd Let_def)
qed

lemma send_attempts_ACK:
  assumes "is_open s" "wfail s = []" "length pc \<le> 255"
    and "rx s = response_frame ACK [] @ rest"
  shows "send_attempts (Suc n) pc s =
    (True, s\<lparr>tx := tx s @ [command_frame SEND_PACKET pc], rx := rest\<rparr>)"
  using send_attempts_step [OF assms(1-4), of n] by simp

lemma send_attempts_CHECKSUM_ERROR:
  assumes "is_open s" "wfail s = []" "length pc \<le> 255"
    and "rx s = response_frame CHECKSUM_ERROR [] @ rest"
  shows "send_attempts (Suc n) pc s =
    send_attempts n pc (s\<lparr>tx := tx s @ [command_frame SEND_PACKET pc], rx := rest\<rparr>)"
  using send_attempts_step [OF assms(1-4), of n] by simp

lemma send_attempts_CHECKSUM_ERRORs:
  assumes "is_open s" "wfail s = []" "length pc \<le> 255"
    and "rx s = concat (replicate j (response_frame CHECKSUM_ERROR [])) @ rest"
  shows "send_attempts (j + n) pc s =
    send_attempts n pc (s\<lparr>tx := tx s @ replicate j (command_frame SEND_PACKET pc), rx := rest\<rparr>)"
  using assms
proof (induction j arbitrary: s)
  case 0
  then have "s\<lparr>tx := tx s @ replicate 0 (command_frame SEND_PACKET pc), rx := rest\<rparr> = s"
    by (cases s) simp
  then show ?case by simp
next
  case (Suc j)
  let ?s1 = "s\<lparr>tx := tx s @ [command_frame SEND_PACKET pc],
      rx := concat (replicate j (response_frame CHECKSUM_ERROR [])) @ rest\<rparr>"
  have "send_attempts (Suc (j + n)) pc s = send_attempts (j + n) pc ?s1"
    by (rule send_attempts_CHECKSUM_ERROR) (use Suc.prems in simp_all)
  also have "\<dots> = send_attempts n pc
      (?s1\<lparr>tx := tx ?s1 @ replicate j (command_frame SEND_PACKET pc), rx := rest\<rparr>)"
    by (rule Suc.IH) (use Suc.prems in simp_all)
  finally show ?case
    by (simp add: replicate_append_same)
qed

lemma send_packets_acks:
  assumes "is_open s" "wfail s = []" "\<forall>k \<in> set ks. k < 65536"
    and "rx s = concat (replicate (length ks) (response_frame ACK [])) @ rest"
  shows "send_packets fd ks s = (None, s\<lparr>tx := tx s @ map (packet_frame fd) ks, rx := rest\<rparr>)"
  using assms
proof (induction ks arbitrary: s)
  case Nil
  then have "s\<lparr>tx := tx s @ map (packet_frame fd) [], rx := rest\<rparr> = s"
    by (cases s) simp
  then show ?case by simp
next
  case (Cons k ks)
  let ?pc = "le_bytes 2 (int k) @ xor_checksum 0 (packet_data fd k) # packet_data fd k"
  let ?s1 = "s\<lparr>tx := tx s @ [command_frame SEND_PACKET ?pc],
      rx := concat (replicate (length ks) (response_frame ACK [])) @ rest\<rparr>"
  have pc: "packet_content fd k = Some ?pc"
    using Cons.prems(3) by (simp add: packet_content_Some)
  have "send_attempts (Suc 2) ?pc s = (True, ?s1)"
    by (rule send_attempts_ACK) (use Cons.prems in \<open>simp_all add: length_le_bytes length_packet_data16\<close>)
  then have att: "send_attempts max_retries ?pc s = (True, ?s1)"
    by (simp add: max_retries_def numeral_3_eq_3)
  have "send_packets fd ks ?s1 = (None, ?s1\<lparr>tx := tx ?s1 @ map (packet_frame fd) ks, rx := rest\<rparr>)"
    by (rule Cons.IH) (use Cons.prems in simp_all)
  then show ?case
    by (simp add: pc att)
qed

lemma send_packets_append:
  "send_packets fd (ks @ ks') s =
    (case send_packets fd ks s of
       (None, s') \<Rightarrow> send_packets fd ks' s'
     | (Some out, s') \<Rightarrow> (Some out, s'))"
  by (induction ks arbitrary: s) (auto split: option.splits prod.splits bool.splits)

lemma finish_update_ok:
  assumes "is_open s" "wfail s = []" "rx s = response_frame r payload @ rest" "length payload \<le> 255"
  shows "finish_update s =
    (if r = ACK then Completed else Failed FinalizationFailed,
     s\<lparr>tx := tx s @ [command_frame FINISH_UPDATE []], rx := rest\<rparr>)"
proof -
  let ?s1 = "s\<lparr>tx := tx s @ [command_frame FINISH_UPDATE []]\<rparr>"
  have snd: "send_command s FINISH_UPDATE [] = (True, ?s1)"
    using assms(1,2) by (simp add: send_command_ok)
  have "read_response ?s1 = ((Some r, payload), ?s1\<lparr>rx := rest\<rparr>)"
    by (rule read_response_frame) (use assms in simp_all)
  then show ?thesis
    by (simp add: finish_update_def snd)
qed

subsection \<open>The session up to the packet loop\<close>

lemma target_address_range: "int (target_address vi) < 2 ^ 32"
  by (simp add: target_address_def version_1_address_def version_2_address_def)

lemma pack_III_ok:
  assumes "0 \<le> v" "v < 2 ^ 32" "length fd < 2 ^ 32"
  shows "pack_III v (int (target_address vi)) (int (length fd)) =
    Some (le_bytes 4 v @ le_bytes 4 (int (target_address vi)) @ le_bytes 4 (int (length fd)))"
proof -
  have a: "pack_uint 4 v = Some (le_bytes 4 v)"
    using assms(1,2) by (simp add: pack_uint_def)
  have b: "pack_uint 4 (int (target_address vi)) = Some (le_bytes 4 (int (target_address vi)))"
    using target_address_range [of vi] by (simp add: pack_uint_def)
  have "int (length fd) < 2 ^ 32"
    using assms(3) by (metis of_nat_less_iff of_nat_numeral of_nat_power)
  then have c: "pack_uint 4 (int (length fd)) = Some (le_bytes 4 (int (length fd)))"
    by (simp add: pack_uint_def)
  show ?thesis
    by (simp add: pack_III_def a b c)
qed

lemma session_init:
  assumes "is_open s" "wfail s = []" "length vd = 16"
    and "0 \<le> v" "v < 2 ^ 32" "length fd < 2 ^ 32"
    and "rx s = response_frame VERSION_INFO vd @ rest"
  shows "send_update_file s (Content fd) v =
    (case wait_ready max_retries
            (s\<lparr>tx := tx s @ [command_frame GET_VERSION [],
                               init_frame v (unpack_version_info vd) fd],
               rx := rest\<rparr>) of
       (Some f, s3) \<Rightarrow> (Failed f, s3)
     | (None, s3) \<Rightarrow>
         (case send_packets fd [0..<total_packets (length fd)] s3 of
            (Some out, s4) \<Rightarrow> (out, s4)
          | (None, s4) \<Rightarrow> finish_update s4))"
proof -
  let ?vi = "unpack_version_info vd"
  let ?s1 = "s\<lparr>tx := tx s @ [command_frame GET_VERSION []], rx := rest\<rparr>"
  let ?init = "le_bytes 4 v @ le_bytes 4 (int (target_address ?vi)) @ le_bytes 4 (int (length fd))"
  have gv: "get_version_info s = (Some ?vi, ?s1)"
    by (rule get_version_info_ok) (use assms in simp_all)
  have pk: "pack_III v (int (target_address ?vi)) (int (length fd)) = Some ?init"
    by (rule pack_III_ok) (use assms in simp_all)
  have "send_command ?s1 INIT_UPDATE ?init =
      (True, ?s1\<lparr>tx := tx ?s1 @ [command_frame INIT_UPDATE ?init]\<rparr>)"
    by (rule send_command_ok) (use assms in \<open>simp_all add: length_le_bytes\<close>)
  then have ini: "send_command ?s1 INIT_UPDATE ?init =
      (True, s\<lparr>tx := tx s @ [command_frame GET_VERSION [], command_frame INIT_UPDATE ?init],
               rx := rest\<rparr>)"
    by simp
  show ?thesis
    unfolding send_update_file_def
    by (simp only: gv pk ini file_state.simps split_conv option.simps bool.simps if_False)
qed

lemma session_prefix:
  assumes "is_open s" "wfail s = []" "length vd = 16"
    and "0 \<le> v" "v < 2 ^ 32" "length fd < 2 ^ 32"
    and "k \<le> total_packets (length fd)" "k \<le> 65536"
    and "rx s = response_frame VERSION_INFO vd @ response_frame READY [] @
           concat (replicate k (response_frame ACK [])) @ rest"
  shows "send_update_file s (Content fd) v =
    (case send_packets fd [k..<total_packets (length fd)]
            (s\<lparr>tx := tx s @ [command_frame GET_VERSION [],
                               init_frame v (unpack_version_info vd) fd] @
                             map (packet_frame fd) [0..<k],
               rx := rest\<rparr>) of
       (Some out, s4) \<Rightarrow> (out, s4)
     | (None, s4) \<Rightarrow> finish_update s4)"
proof -
  let ?hd = "[command_frame GET_VERSION [], init_frame v (unpack_version_info vd) fd]"
  let ?acks = "concat (replicate k (response_frame ACK [])) @ rest"
  let ?s2 = "s\<lparr>tx := tx s @ ?hd, rx := response_frame READY [] @ ?acks\<rparr>"
  let ?s3 = "s\<lparr>tx := tx s @ ?hd, rx := ?acks\<rparr>"
  let ?s4 = "s\<lparr>tx := tx s @ ?hd @ map (packet_frame fd) [0..<k], rx := rest\<rparr>"
  have ini: "send_update_file s (Content fd) v =
    (case wait_ready max_retries ?s2 of
       (Some f, s3) \<Rightarrow> (Failed f, s3)
     | (None, s3) \<Rightarrow>
         (case send_packets fd [0..<total_packets (length fd)] s3 of
            (Some out, s4) \<Rightarrow> (out, s4)
          | (None, s4) \<Rightarrow> finish_update s4))"
    by (rule session_init) (use assms in simp_all)
  have "wait_ready (Suc 2) ?s2 = (None, ?s2\<lparr>rx := ?acks\<rparr>)"
    by (rule wait_ready_READY) (use assms in simp_all)
  then have rdy: "wait_ready max_retries ?s2 = (None, ?s3)"
    by (simp add: max_retries_def numeral_3_eq_3)
  have "send_packets fd [0..<k] ?s3 =
      (None, ?s3\<lparr>tx := tx ?s3 @ map (packet_frame fd) [0..<k], rx := rest\<rparr>)"
    by (rule send_packets_acks) (use assms in simp_all)
  then have pre: "send_packets fd [0..<k] ?s3 = (None, ?s4)"
    by simp
  have "[0..<total_packets (length fd)] = [0..<k] @ [k..<total_packets (length fd)]"
    using assms(7) by (metis le_add_diff_inverse upt_add_eq_append zero_le)
  then have "send_packets fd [0..<total_packets (length fd)] ?s3 =
      send_packets fd [k..<total_packets (length fd)] ?s4"
    by (simp only: send_packets_append pre split_conv option.simps)
  then show ?thesis
    by (simp only: ini rdy split_conv option.simps)
qed

subsection \<open>Chunks\<close>

lemma total_packets_ceil:
  "16 * total_packets n \<ge> n \<and> 16 * total_packets n < n + 16"
  unfolding total_packets_def packet_size_def by presburger

lemma packet_data_slice:
  "packet_data fd k =
     take 16 (drop (16 * k) fd) @ replicate (16 - length (take 16 (drop (16 * k) fd))) 0xFF"
proof -
  have "take (min (k * 16 + 16) (length fd) - k * 16) (drop (k * 16) fd)
      = take 16 (drop (k * 16) fd)"
    by (cases "k * 16 + 16 \<le> length fd") (simp_all add: min_def)
  then show ?thesis
    by (simp add: packet_data_def packet_size_def Let_def mult.commute)
qed

lemma session_completed:
  assumes "is_open s" "wfail s = []" "length vd = 16"
    and "0 \<le> v" "v < 2 ^ 32" "length fd \<le> 16 * 65536"
    and "rx s = response_frame VERSION_INFO vd @ response_frame READY [] @
           concat (replicate (total_packets (length fd)) (response_frame ACK [])) @
           response_frame ACK [] @ rest"
  shows "send_update_file s (Content fd) v =
    (Completed,
     s\<lparr>tx := tx s @ [command_frame GET_VERSION [], init_frame v (unpack_version_info vd) fd] @
                map (packet_frame fd) [0..<total_packets (length fd)] @
                [command_frame FINISH_UPDATE []],
       rx := rest\<rparr>)"
proof -
  let ?n = "total_packets (length fd)"
  let ?s4 = "s\<lparr>tx := tx s @ [command_frame GET_VERSION [],
                               init_frame v (unpack_version_info vd) fd] @
                             map (packet_frame fd) [0..<?n],
               rx := response_frame ACK [] @ rest\<rparr>"
  have n: "?n \<le> 65536"
    using assms(6) total_packets_ceil [of "length fd"] by linarith
  have "send_update_file s (Content fd) v =
    (case send_packets fd [?n..<?n] ?s4 of
       (Some out, s4) \<Rightarrow> (out, s4)
     | (None, s4) \<Rightarrow> finish_update s4)"
    by (rule session_prefix) (use assms n in simp_all)
  then have "send_update_file s (Content fd) v = finish_update ?s4"
    by simp
  also have "\<dots> = (if ACK = ACK then Completed else Failed FinalizationFailed,
      ?s4\<lparr>tx := tx ?s4 @ [command_frame FINISH_UPDATE []], rx := rest\<rparr>)"
    by (rule finish_update_ok [where payload = "[]"]) (use assms in simp_all)
  finally show ?thesis
    by simp
qed

subsection \<open>Checksum errors, NACK and the abort\<close>

lemma send_attempts_errors_then:
  assumes "is_open s" "wfail s = []" "length pc \<le> 255" "j < n"
    and "r = ACK \<or> r = NACK"
    and "rx s = concat (replicate j (response_frame CHECKSUM_ERROR [])) @
           response_frame r [] @ rest"
  shows "send_attempts n pc s =
    (r = ACK, s\<lparr>tx := tx s @ replicate (Suc j) (command_frame SEND_PACKET pc), rx := rest\<rparr>)"
proof -
  let ?f = "command_frame SEND_PACKET pc"
  let ?s1 = "s\<lparr>tx := tx s @ replicate j ?f, rx := response_frame r [] @ rest\<rparr>"
  define m where "m = n - Suc j"
  have n: "n = j + Suc m"
    using assms(4) by (simp add: m_def)
  have "send_attempts (j + Suc m) pc s = send_attempts (Suc m) pc ?s1"
    by (rule send_attempts_CHECKSUM_ERRORs) (use assms in simp_all)
  also have "\<dots> =
    (let s' = ?s1\<lparr>tx := tx ?s1 @ [?f], rx := rest\<rparr>
     in if r = ACK then (True, s')
        else if r = NACK then (False, s')
        else send_attempts m pc s')"
    by (rule send_attempts_step [where payload = "[]"]) (use assms in simp_all)
  finally show ?thesis
    using assms(5) by (auto simp: n Let_def replicate_append_same)
qed

lemma send_command_abort:
  assumes "is_open s" "wfail s = []"
  shows "snd (send_command s ABORT_UPDATE []) = s\<lparr>tx := tx s @ [command_frame ABORT_UPDATE []]\<rparr>"
  using assms by (simp add: send_command_ok)

lemma send_packets_errors_ack:
  assumes "is_open s" "wfail s = []" "k < 65536" "j < max_retries"
    and "rx s = concat (replicate j (response_frame CHECKSUM_ERROR [])) @
           response_frame ACK [] @ rest"
  shows "send_packets fd (k # ks) s =
    send_packets fd ks (s\<lparr>tx := tx s @ replicate (Suc j) (packet_frame fd k), rx := rest\<rparr>)"
proof -
  let ?pc = "le_bytes 2 (int k) @ xor_checksum 0 (packet_data fd k) # packet_data fd k"
  have pc: "packet_content fd k = Some ?pc"
    using assms(3) by (simp add: packet_content_Some)
  have "send_attempts max_retries ?pc s =
      (ACK = ACK, s\<lparr>tx := tx s @ replicate (Suc j) (command_frame SEND_PACKET ?pc), rx := rest\<rparr>)"
    by (rule send_attempts_errors_then)
      (use assms in \<open>simp_all add: length_le_bytes length_packet_data16\<close>)
  then show ?thesis
    by (simp add: pc)
qed

lemma send_packets_errors_nack:
  assumes "is_open s" "wfail s = []" "k < 65536" "j < max_retries"
    and "rx s = concat (replicate j (response_frame CHECKSUM_ERROR [])) @
           response_frame NACK [] @ rest"
  shows "send_packets fd (k # ks) s =
    (Some (Aborted k),
     s\<lparr>tx := tx s @ replicate (Suc j) (packet_frame fd k) @ [command_frame ABORT_UPDATE []],
       rx := rest\<rparr>)"
proof -
  let ?pc = "le_bytes 2 (int k) @ xor_checksum 0 (packet_data fd k) # packet_data fd k"
  let ?s1 = "s\<lparr>tx := tx s @ replicate (Suc j) (command_frame SEND_PACKET ?pc), rx := rest\<rparr>"
  have pc: "packet_content fd k = Some ?pc"
    using assms(3) by (simp add: packet_content_Some)
  have att: "send_attempts max_retries ?pc s = (NACK = ACK, ?s1)"
    by (rule send_attempts_errors_then)
      (use assms in \<open>simp_all add: length_le_bytes length_packet_data16\<close>)
  have "snd (send_command ?s1 ABORT_UPDATE []) = ?s1\<lparr>tx := tx ?s1 @ [command_frame ABORT_UPDATE []]\<rparr>"
    by (rule send_command_abort) (use assms in simp_all)
  then show ?thesis
    using att by (simp add: pc)
qed

lemma send_packets_errors_exhausted:
  assumes "is_open s" "wfail s = []" "k < 65536"
    and "rx s = concat (replicate max_retries (response_frame CHECKSUM_ERROR [])) @ rest"
  shows "send_packets fd (k # ks) s =
    (Some (Aborted k),
     s\<lparr>tx := tx s @ replicate max_retries (packet_frame fd k) @ [command_frame ABORT_UPDATE []],
       rx := rest\<rparr>)"
proof -
  let ?pc = "le_bytes 2 (int k) @ xor_checksum 0 (packet_data fd k) # packet_data fd k"
  let ?s1 = "s\<lparr>tx := tx s @ replicate max_retries (command_frame SEND_PACKET ?pc), rx := rest\<rparr>"
  have pc: "packet_content fd k = Some ?pc"
    using assms(3) by (simp add: packet_content_Some)
  have "send_attempts (max_retries + 0) ?pc s = send_attempts 0 ?pc ?s1"
    by (rule send_attempts_CHECKSUM_ERRORs)
      (use assms in \<open>simp_all add: length_le_bytes length_packet_data16\<close>)
  then have att: "send_attempts max_retries ?pc s = (False, ?s1)"
    by simp
  have "snd (send_command ?s1 ABORT_UPDATE []) = ?s1\<lparr>tx := tx ?s1 @ [command_frame ABORT_UPDATE []]\<rparr>"
    by (rule send_command_abort) (use assms in simp_all)
  then show ?thesis
    using att by (simp add: pc)
qed

lemma hd_frame_bytes: "hd (frame_bytes c d) = c"
  by (simp add: frame_bytes_def)

lemma frame_bytes_code: "frame_bytes c d = frame_bytes c' d' \<Longrightarrow> c = c'"
  by (metis hd_frame_bytes)

lemma abort_frame_not_sent:
  "command_frame ABORT_UPDATE [] \<notin>
     set ([command_frame GET_VERSION [], init_frame v vi fd] @ map (packet_frame fd) ks @
          replicate n (packet_frame fd k))"
  by (auto dest!: frame_bytes_code)

lemma session_at_packet:
  assumes "is_open s" "wfail s = []" "length vd = 16"
    and "0 \<le> v" "v < 2 ^ 32" "length fd < 2 ^ 32"
    and "k < total_packets (length fd)" "k \<le> 65536"
    and "rx s = response_frame VERSION_INFO vd @ response_frame READY [] @
           concat (replicate k (response_frame ACK [])) @ rest"
  shows "send_update_file s (Content fd) v =
    (case send_packets fd (k # [Suc k..<total_packets (length fd)])
            (s\<lparr>tx := tx s @ [command_frame GET_VERSION [],
                               init_frame v (unpack_version_info vd) fd] @
                             map (packet_frame fd) [0..<k],
               rx := rest\<rparr>) of
       (Some out, s4) \<Rightarrow> (out, s4)
     | (None, s4) \<Rightarrow> finish_update s4)"
proof -
  have "[k..<total_packets (length fd)] = k # [Suc k..<total_packets (length fd)]"
    using assms(7) by (rule upt_conv_Cons)
  then show ?thesis
    using session_prefix [OF assms(1-6) _ assms(8,9)] assms(7) by simp
qed

lemma size_bound: "length (fd :: byte list) \<le> 16 * 65536 \<Longrightarrow> length fd < 2 ^ 32"
  by simp

lemma total_packets_bound: "length (fd :: byte list) \<le> 16 * 65536 \<Longrightarrow> total_packets (length fd) \<le> 65536"
  using total_packets_ceil [of "length fd"] by linarith

lemma session_errors_completed:
  assumes "is_open s" "wfail s = []" "length vd = 16"
    and "0 \<le> v" "v < 2 ^ 32" "length fd \<le> 16 * 65536"
    and "k < total_packets (length fd)" "j < max_retries"
    and "rx s = response_frame VERSION_INFO vd @ response_frame READY [] @
           concat (replicate k (response_frame ACK [])) @
           concat (replicate j (response_frame CHECKSUM_ERROR [])) @
           response_frame ACK [] @
           concat (replicate (total_packets (length fd) - Suc k) (response_frame ACK [])) @
           response_frame ACK [] @ rest"
  shows "send_update_file s (Content fd) v =
    (Completed,
     s\<lparr>tx := tx s @ [command_frame GET_VERSION [], init_frame v (unpack_version_info vd) fd] @
                map (packet_frame fd) [0..<k] @ replicate (Suc j) (packet_frame fd k) @
                map (packet_frame fd) [Suc k..<total_packets (length fd)] @
                [command_frame FINISH_UPDATE []],
       rx := rest\<rparr>)"
proof -
  let ?n = "total_packets (length fd)"
  let ?hd = "[command_frame GET_VERSION [], init_frame v (unpack_version_info vd) fd]"
  let ?r6 = "response_frame ACK [] @ rest"
  let ?r5 = "concat (replicate (?n - Suc k) (response_frame ACK [])) @ ?r6"
  let ?r4 = "concat (replicate j (response_frame CHECKSUM_ERROR [])) @ response_frame ACK [] @ ?r5"
  let ?s4 = "s\<lparr>tx := tx s @ ?hd @ map (packet_frame fd) [0..<k], rx := ?r4\<rparr>"
  let ?s5 = "s\<lparr>tx := tx s @ ?hd @ map (packet_frame fd) [0..<k] @
                 replicate (Suc j) (packet_frame fd k), rx := ?r5\<rparr>"
  let ?s6 = "s\<lparr>tx := tx s @ ?hd @ map (packet_frame fd) [0..<k] @
                 replicate (Suc j) (packet_frame fd k) @ map (packet_frame fd) [Suc k..<?n],
               rx := ?r6\<rparr>"
  have n: "?n \<le> 65536"
    using assms(6) by (rule total_packets_bound)
  have k: "k < 65536"
    using n assms(7) by simp
  have at: "send_update_file s (Content fd) v =
    (case send_packets fd (k # [Suc k..<?n]) ?s4 of
       (Some out, s4) \<Rightarrow> (out, s4)
     | (None, s4) \<Rightarrow> finish_update s4)"
    by (rule session_at_packet) (use assms k size_bound [OF assms(6)] in simp_all)
  have "send_packets fd (k # [Suc k..<?n]) ?s4 =
      send_packets fd [Suc k..<?n]
        (?s4\<lparr>tx := tx ?s4 @ replicate (Suc j) (packet_frame fd k), rx := ?r5\<rparr>)"
    by (rule send_packets_errors_ack) (use assms k in simp_all)
  then have one: "send_packets fd (k # [Suc k..<?n]) ?s4 = send_packets fd [Suc k..<?n] ?s5"
    by simp
  have "send_packets fd [Suc k..<?n] ?s5 =
      (None, ?s5\<lparr>tx := tx ?s5 @ map (packet_frame fd) [Suc k..<?n], rx := ?r6\<rparr>)"
    by (rule send_packets_acks) (use assms n in simp_all)
  then have more: "send_packets fd [Suc k..<?n] ?s5 = (None, ?s6)"
    by simp
  have "finish_update ?s6 = (if ACK = ACK then Completed else Failed FinalizationFailed,
      ?s6\<lparr>tx := tx ?s6 @ [command_frame FINISH_UPDATE []], rx := rest\<rparr>)"
    by (rule finish_update_ok [where payload = "[]"]) (use assms in simp_all)
  then have fin: "finish_update ?s6 =
      (Completed,
       s\<lparr>tx := tx s @ ?hd @ map (packet_frame fd) [0..<k] @
                 replicate (Suc j) (packet_frame fd k) @ map (packet_frame fd) [Suc k..<?n] @
                 [command_frame FINISH_UPDATE []],
          rx := rest\<rparr>)"
    by simp
  show ?thesis
    by (simp only: at one more fin split_conv option.simps)
qed

lemma session_errors_aborted:
  assumes "is_open s" "wfail s = []" "length vd = 16"
    and "0 \<le> v" "v < 2 ^ 32" "length fd < 2 ^ 32"
    and "k < total_packets (length fd)" "k < 65536"
    and "rx s = response_frame VERSION_INFO vd @ response_frame READY [] @
           concat (replicate k (response_frame ACK [])) @
           concat (replicate max_retries (response_frame CHECKSUM_ERROR [])) @ rest"
  shows "send_update_file s (Content fd) v =
    (Aborted k,
     s\<lparr>tx := tx s @ [command_frame GET_VERSION [], init_frame v (unpack_version_info vd) fd] @
                map (packet_frame fd) [0..<k] @ replicate max_retries (packet_frame fd k) @
                [command_frame ABORT_UPDATE []],
       rx := rest\<rparr>)"
proof -
  let ?n = "total_packets (length fd)"
  let ?hd = "[command_frame GET_VERSION [], init_frame v (unpack_version_info vd) fd]"
  let ?r4 = "concat (replicate max_retries (response_frame CHECKSUM_ERROR [])) @ rest"
  let ?s4 = "s\<lparr>tx := tx s @ ?hd @ map (packet_frame fd) [0..<k], rx := ?r4\<rparr>"
  have at: "send_update_file s (Content fd) v =
    (case send_packets fd (k # [Suc k..<?n]) ?s4 of
       (Some out, s4) \<Rightarrow> (out, s4)
     | (None, s4) \<Rightarrow> finish_update s4)"
    by (rule session_at_packet) (use assms in simp_all)
  have "send_packets fd (k # [Suc k..<?n]) ?s4 =
      (Some (Aborted k),
       ?s4\<lparr>tx := tx ?s4 @ replicate max_retries (packet_frame fd k) @
                  [command_frame ABORT_UPDATE []],
           rx := rest\<rparr>)"
    by (rule send_packets_errors_exhausted) (use assms in simp_all)
  then show ?thesis
    by (simp add: at)
qed

lemma session_nack_aborted:
  assumes "is_open s" "wfail s = []" "length vd = 16"
    and "0 \<le> v" "v < 2 ^ 32" "length fd < 2 ^ 32"
    and "k < total_packets (length fd)" "k < 65536" "j < max_retries"
    and "rx s = response_frame VERSION_INFO vd @ response_frame READY [] @
           concat (replicate k (response_frame ACK [])) @
           concat (replicate j (response_frame CHECKSUM_ERROR [])) @
           response_frame NACK [] @ rest"
  shows "send_update_file s (Content fd) v =
    (Aborted k,
     s\<lparr>tx := tx s @ [command_frame GET_VERSION [], init_frame v (unpack_version_info vd) fd] @
                map (packet_frame fd) [0..<k] @ replicate (Suc j) (packet_frame fd k) @
                [command_frame ABORT_UPDATE []],
       rx := rest\<rparr>)"
proof -
  let ?n = "total_packets (length fd)"
  let ?hd = "[command_frame GET_VERSION [], init_frame v (unpack_version_info vd) fd]"
  let ?r4 = "concat (replicate j (response_frame CHECKSUM_ERROR [])) @
      response_frame NACK [] @ rest"
  let ?s4 = "s\<lparr>tx := tx s @ ?hd @ map (packet_frame fd) [0..<k], rx := ?r4\<rparr>"
  have at: "send_update_file s (Content fd) v =
    (case send_packets fd (k # [Suc k..<?n]) ?s4 of
       (Some out, s4) \<Rightarrow> (out, s4)
     | (None, s4) \<Rightarrow> finish_update s4)"
    by (rule session_at_packet) (use assms in simp_all)
  have "send_packets fd (k # [Suc k..<?n]) ?s4 =
      (Some (Aborted k),
       ?s4\<lparr>tx := tx ?s4 @ replicate (Suc j) (packet_frame fd k) @
                  [command_frame ABORT_UPDATE []],
           rx := rest\<rparr>)"
    by (rule send_packets_errors_nack) (use assms in simp_all)
  then show ?thesis
    by (simp add: at)
qed

subsection \<open>Sequence numbers\<close>

lemma unpack_le_bytes_2:
  assumes "k < 65536"
  shows "unpack_uint (le_bytes 2 (int k)) = k"
proof -
  have two: "[0..<2] = [0, Suc 0]"
    by (simp add: upt_rec)
  have d: "int k div 256 = int (k div 256)"
    by (simp add: zdiv_int)
  have "unpack_uint (le_bytes 2 (int k)) = k mod 256 + 256 * ((k div 256) mod 256)"
    unfolding le_bytes_def two by (simp add: d unat_of_nat)
  also have "\<dots> = k"
    using assms by simp
  finally show ?thesis .
qed

lemma frame_bytes_payload: "frame_bytes c d = frame_bytes c' d' \<Longrightarrow> d = d'"
  by (simp add: frame_bytes_def)

lemma packet_frame_inj:
  assumes "m < 65536" "m' < 65536" "packet_frame fd m = packet_frame fd m'"
  shows "m = m'"
proof -
  have "le_bytes 2 (int m) @ xor_checksum 0 (packet_data fd m) # packet_data fd m =
      le_bytes 2 (int m') @ xor_checksum 0 (packet_data fd m') # packet_data fd m'"
    using assms(3) by (rule frame_bytes_payload)
  then have "le_bytes 2 (int m) = le_bytes 2 (int m')"
    by (simp add: length_le_bytes)
  then have "unpack_uint (le_bytes 2 (int m)) = unpack_uint (le_bytes 2 (int m'))"
    by simp
  then show ?thesis
    using assms(1,2) by (simp add: unpack_le_bytes_2)
qed

lemma later_packets_not_sent:
  assumes "k < m" "m < 65536"
  shows "packet_frame fd m \<notin>
     set ([command_frame GET_VERSION [], init_frame v vi fd] @ map (packet_frame fd) [0..<k] @
          replicate n (packet_frame fd k) @ [command_frame ABORT_UPDATE []])"
proof -
  have a: "packet_frame fd m \<noteq> command_frame GET_VERSION []"
    and b: "packet_frame fd m \<noteq> init_frame v vi fd"
    and c: "packet_frame fd m \<noteq> command_frame ABORT_UPDATE []"
    by (auto dest!: frame_bytes_code)
  have d: "packet_frame fd m \<noteq> packet_frame fd i" if "i \<le> k" for i
    using packet_frame_inj [of m i fd] assms that by auto
  have e: "packet_frame fd m \<notin> set (map (packet_frame fd) [0..<k])"
  proof
    assume "packet_frame fd m \<in> set (map (packet_frame fd) [0..<k])"
    then obtain i where "i < k" and "packet_frame fd m = packet_frame fd i"
      by auto
    then show False
      using d [of i] by simp
  qed
  have f: "packet_frame fd m \<notin> set (replicate n (packet_frame fd k))"
    using d [of k] by simp
  show ?thesis
    using a b c e f by (simp del: set_replicate set_map set_upt)
qed

subsection \<open>Errors of the initialization\<close>

lemma wait_ready_ERROR:
  assumes "is_open s" "length data \<le> 255" "rx s = response_frame ERROR data @ rest"
  shows "wait_ready (Suc n) s =
    (Some (if length data \<ge> 1 then DeviceError (error_message (data ! 0))
           else GenericDeviceError),
     s\<lparr>rx := rest\<rparr>)"
proof -
  have "read_response s = ((Some ERROR, data), s\<lparr>rx := rest\<rparr>)"
    using assms by (rule read_response_frame)
  then show ?thesis by simp
qed

lemma session_init_error:
  assumes "is_open s" "wfail s = []" "length vd = 16"
    and "0 \<le> v" "v < 2 ^ 32" "length fd < 2 ^ 32" "length data \<le> 255"
    and "rx s = response_frame VERSION_INFO vd @ response_frame ERROR data @ rest"
  shows "send_update_file s (Content fd) v =
    (Failed (if length data \<ge> 1 then DeviceError (error_message (data ! 0))
             else GenericDeviceError),
     s\<lparr>tx := tx s @ [command_frame GET_VERSION [], init_frame v (unpack_version_info vd) fd],
       rx := rest\<rparr>)"
proof -
  let ?hd = "[command_frame GET_VERSION [], init_frame v (unpack_version_info vd) fd]"
  let ?s2 = "s\<lparr>tx := tx s @ ?hd, rx := response_frame ERROR data @ rest\<rparr>"
  have ini: "send_update_file s (Content fd) v =
    (case wait_ready max_retries ?s2 of
       (Some f, s3) \<Rightarrow> (Failed f, s3)
     | (None, s3) \<Rightarrow>
         (case send_packets fd [0..<total_packets (length fd)] s3 of
            (Some out, s4) \<Rightarrow> (out, s4)
          | (None, s4) \<Rightarrow> finish_update s4))"
    by (rule session_init) (use assms in simp_all)
  have "wait_ready (Suc 2) ?s2 =
    (Some (if length data \<ge> 1 then DeviceError (error_message (data ! 0))
           else GenericDeviceError),
     ?s2\<lparr>rx := rest\<rparr>)"
    by (rule wait_ready_ERROR) (use assms in simp_all)
  then have "wait_ready max_retries ?s2 =
    (Some (if length data \<ge> 1 then DeviceError (error_message (data ! 0))
           else GenericDeviceError),
     s\<lparr>tx := tx s @ ?hd, rx := rest\<rparr>)"
    by (simp add: max_retries_def numeral_3_eq_3)
  then show ?thesis
    by (simp only: ini split_conv option.simps)
qed

lemma error_message_table:
  "error_message 1 = ''Bad length''"
  "error_message 2 = ''Update already in progress''"
  "error_message 3 = ''Invalid file size''"
  "error_message 4 = ''Invalid target address''"
  "error_message 5 = ''Flash erase failed''"
  by (simp_all add: error_message_def error_messages_def)

lemma error_message_other:
  assumes "unat code \<notin> {1, 2, 3, 4, 5}"
  shows "error_message code = ''Unknown error '' @ str_nat (unat code)"
  using assms by (simp add: error_message_def error_messages_def)

lemma packet_frame_not_head:
  "packet_frame fd m \<notin> set [command_frame GET_VERSION [], init_frame v vi fd]"
  by (auto dest!: frame_bytes_code)

subsection \<open>What an exchange leaves unchanged\<close>

lemma read_frame_state:
  "tx (snd (read_frame s)) = tx s \<and> is_open (snd (read_frame s)) = is_open s
   \<and> wfail (snd (read_frame s)) = wfail s"
  by (simp add: read_frame_def Let_def split: prod.splits option.splits)

lemma read_response_state:
  "tx (snd (read_response s)) = tx s \<and> is_open (snd (read_response s)) = is_open s
   \<and> wfail (snd (read_response s)) = wfail s"
  using read_frame_state [of s]
  by (auto simp: read_response_def split: prod.splits sum.splits)

lemma finish_update_tx:
  assumes "is_open s" "wfail s = []"
  shows "tx (snd (finish_update s)) = tx s @ [command_frame FINISH_UPDATE []]"
proof -
  let ?s1 = "s\<lparr>tx := tx s @ [command_frame FINISH_UPDATE []]\<rparr>"
  have snd: "send_command s FINISH_UPDATE [] = (True, ?s1)"
    using assms by (simp add: send_command_ok)
  obtain r d s2 where rr: "read_response ?s1 = ((r, d), s2)"
    by (metis surj_pair)
  have t: "tx s2 = tx s @ [command_frame FINISH_UPDATE []]"
    using read_response_state [of ?s1] rr by simp
  have "finish_update s =
      (if r \<noteq> Some ACK then (Failed FinalizationFailed, s2) else (Completed, s2))"
    by (simp only: finish_update_def snd rr split_conv bool.simps)
  then show ?thesis
    using t by simp
qed

lemma session_empty_file:
  assumes "is_open s" "wfail s = []" "length vd = 16" "0 \<le> v" "v < 2 ^ 32"
    and "rx s = response_frame VERSION_INFO vd @ response_frame READY [] @ rest"
  shows "send_update_file s (Content []) v =
    finish_update
      (s\<lparr>tx := tx s @ [command_frame GET_VERSION [], init_frame v (unpack_version_info vd) []],
         rx := rest\<rparr>)"
proof -
  have z: "total_packets 0 = 0"
    by (simp add: total_packets_def packet_size_def)
  have "send_update_file s (Content []) v =
    (case send_packets [] [0..<total_packets (length ([] :: byte list))]
            (s\<lparr>tx := tx s @ [command_frame GET_VERSION [],
                               init_frame v (unpack_version_info vd) []] @
                             map (packet_frame []) [0..<0],
               rx := rest\<rparr>) of
       (Some out, s4) \<Rightarrow> (out, s4)
     | (None, s4) \<Rightarrow> finish_update s4)"
    by (rule session_prefix) (use assms in simp_all)
  then show ?thesis
    by (simp add: z)
qed

lemma abort_frame_not_in_packets:
  "command_frame ABORT_UPDATE [] \<notin>
     set ([command_frame GET_VERSION [], init_frame v vi fd] @ map (packet_frame fd) ks)"
  by (auto dest!: frame_bytes_code)

lemma total_packets_large:
  assumes "16 * 65536 < length (fd :: byte list)"
  shows "65536 < total_packets (length fd)"
  using total_packets_ceil [of "length fd"] assms by linarith

lemma session_raised:
  assumes "is_open s" "wfail s = []" "length vd = 16"
    and "0 \<le> v" "v < 2 ^ 32" "16 * 65536 < length fd" "length fd < 2 ^ 32"
    and "rx s = response_frame VERSION_INFO vd @ response_frame READY [] @
           concat (replicate 65536 (response_frame ACK [])) @ rest"
  shows "send_update_file s (Content fd) v =
    (Raised,
     s\<lparr>tx := tx s @ [command_frame GET_VERSION [], init_frame v (unpack_version_info vd) fd] @
                map (packet_frame fd) [0..<65536],
       rx := rest\<rparr>)"
proof -
  let ?n = "total_packets (length fd)"
  let ?s4 = "s\<lparr>tx := tx s @ [command_frame GET_VERSION [],
                               init_frame v (unpack_version_info vd) fd] @
                             map (packet_frame fd) [0..<65536],
               rx := rest\<rparr>"
  have k: "65536 < ?n"
    using assms(6) by (rule total_packets_large)
  have at: "send_update_file s (Content fd) v =
    (case send_packets fd (65536 # [Suc 65536..<?n]) ?s4 of
       (Some out, s4) \<Rightarrow> (out, s4)
     | (None, s4) \<Rightarrow> finish_update s4)"
    by (rule session_at_packet [OF assms(1-5,7) k _ assms(8)]) simp
  have "packet_content fd 65536 = None"
    by (rule packet_content_None) simp
  then have "send_packets fd (65536 # [Suc 65536..<?n]) ?s4 = (Some Raised, ?s4)"
    by (simp only: send_packets.simps option.simps)
  then show ?thesis
    by (simp only: at split_conv option.simps)
qed

lemma packet_content_index:
  assumes "k < 65536"
  shows "\<exists>pc. packet_content fd k = Some pc \<and> length pc = 19 \<and> unpack_uint (take 2 pc) = k
    \<and> command_frame SEND_PACKET pc = packet_frame fd k"
proof -
  let ?pc = "le_bytes 2 (int k) @ xor_checksum 0 (packet_data fd k) # packet_data fd k"
  have "packet_content fd k = Some ?pc"
    using assms by (rule packet_content_Some)
  moreover have "length ?pc = 19"
    by (rule length_packet_bytes)
  moreover have "unpack_uint (take 2 ?pc) = k"
    using assms by (simp add: length_le_bytes unpack_le_bytes_2)
  ultimately show ?thesis
    by blast
qed

subsection \<open>Corrupted and truncated frames\<close>

lemma xor_cancel_right: "(a :: byte) XOR x = b XOR x \<Longrightarrow> a = b"
proof -
  assume e: "a XOR x = b XOR x"
  have "a = (a XOR x) XOR x"
    by (simp add: xor.assoc)
  also have "\<dots> = (b XOR x) XOR x"
    by (simp only: e)
  also have "\<dots> = b"
    by (simp add: xor.assoc)
  finally show ?thesis .
qed

lemma xor_checksum_start_inj: "xor_checksum a xs = xor_checksum b xs \<Longrightarrow> a = b"
  by (induction xs arbitrary: a b) (auto dest: xor_cancel_right)

lemma xor_cancel_left: "(x :: byte) XOR a = x XOR b \<Longrightarrow> a = b"
  using xor_cancel_right [of a x b] by (simp add: xor.commute)

lemma xor_checksum_update:
  assumes "j < length xs" "y \<noteq> xs ! j"
  shows "xor_checksum c (xs[j := y]) \<noteq> xor_checksum c xs"
  using assms
proof (induction xs arbitrary: c j)
  case Nil
  then show ?case by simp
next
  case (Cons x xs)
  show ?case
  proof (cases j)
    case 0
    then have "y \<noteq> x"
      using Cons.prems by simp
    then have "c XOR y \<noteq> c XOR x"
      using xor_cancel_left by blast
    then show ?thesis
      using 0 xor_checksum_start_inj by auto
  next
    case (Suc i)
    then show ?thesis
      using Cons.IH [of i "c XOR x"] Cons.prems by simp
  qed
qed

lemma flip_bit_neq:
  assumes "k < 8"
  shows "flip_bit k (w :: byte) \<noteq> w"
proof
  assume "flip_bit k w = w"
  then have "bit (flip_bit k w) k = bit w k"
    by simp
  then show False
    using assms by (simp add: bit_flip_bit_iff possible_bit_def)
qed

lemma serial_read_timeout:
  assumes "length bs < n"
  shows "serial_read n (map Byte bs @ Timeout # rest) = (Some bs, rest)"
  using assms
proof (induction bs arbitrary: n)
  case Nil
  then obtain m where "n = Suc m"
    by (cases n) auto
  then show ?case by simp
next
  case (Cons b bs)
  then obtain m where n: "n = Suc m"
    by (cases n) auto
  then have "length bs < m"
    using Cons.prems by simp
  then show ?case
    using Cons.IH [of m] by (simp add: n)
qed

lemma read_frame_raw:
  assumes "is_open s" "length payload \<le> 255"
    and "rx s = Byte c # Byte (of_nat (length payload)) # map Byte payload @ Byte x # rest"
  shows "read_frame s =
    (if xor_checksum (c XOR of_nat (length payload)) payload \<noteq> x then Inl ChecksumMismatch
     else case Response_of c of
            None \<Rightarrow> Inl UnknownCode
          | Some response \<Rightarrow> Inr (response, payload),
     s\<lparr>rx := rest\<rparr>)"
proof -
  let ?l = "of_nat (length payload) :: byte"
  have len: "unat ?l = length payload"
    using assms(2) by (simp add: unat_of_nat)
  have hd: "serial_read 2 (rx s) = (Some [c, ?l], map Byte payload @ Byte x # rest)"
    unfolding assms(3) by (simp add: numeral_2_eq_2)
  have body: "serial_read (length payload) (map Byte payload @ Byte x # rest)
      = (Some payload, Byte x # rest)"
    by (rule serial_read_bytes)
  show ?thesis
    using assms(1) len
    by (cases "payload = []")
      (simp_all add: read_frame_def hd body split: option.splits)
qed

lemma read_frame_header_short:
  assumes "is_open s" "length bs < 2" "rx s = map Byte bs @ Timeout # rest"
  shows "read_frame s = (Inl HeaderShort, s\<lparr>rx := rest\<rparr>)"
proof -
  have "serial_read 2 (rx s) = (Some bs, rest)"
    unfolding assms(3) using assms(2) by (rule serial_read_timeout)
  then show ?thesis
    using assms(1,2) by (simp add: read_frame_def)
qed

lemma read_frame_checksum_short:
  assumes "is_open s" "length payload \<le> 255"
    and "rx s = Byte c # Byte (of_nat (length payload)) # map Byte payload @ Timeout # rest"
  shows "read_frame s = (Inl ChecksumShort, s\<lparr>rx := rest\<rparr>)"
proof -
  let ?l = "of_nat (length payload) :: byte"
  have len: "unat ?l = length payload"
    using assms(2) by (simp add: unat_of_nat)
  have hd: "serial_read 2 (rx s) = (Some [c, ?l], map Byte payload @ Timeout # rest)"
    unfolding assms(3) by (simp add: numeral_2_eq_2)
  have body: "serial_read (length payload) (map Byte payload @ Timeout # rest)
      = (Some payload, Timeout # rest)"
    by (rule serial_read_bytes)
  show ?thesis
    using assms(1) len
    by (cases "payload = []") (simp_all add: read_frame_def hd body)
qed

lemma serial_read_two: "serial_read 2 evs = serial_read (Suc (Suc 0)) evs"
  by (simp add: numeral_2_eq_2)

lemma read_response_Inl:
  "read_frame s = (Inl f, s') \<Longrightarrow> read_response s = ((None, []), s')"
  by (simp add: read_response_def)

lemma frame_bytes_Cons:
  "frame_bytes c payload =
     c # of_nat (length payload) # payload @
     [xor_checksum (c XOR of_nat (length payload)) payload]"
  by (simp add: frame_bytes_def)

lemma read_frame_flipped:
  assumes "is_open s" "length payload \<le> 255" "k < 8"
    and "i < length (frame_bytes c payload)" "i \<noteq> 1"
    and "rx s = map Byte ((frame_bytes c payload)[i := flip_bit k (frame_bytes c payload ! i)])
           @ rest"
  shows "read_frame s = (Inl ChecksumMismatch, s\<lparr>rx := rest\<rparr>)"
proof -
  let ?l = "of_nat (length payload) :: byte"
  let ?cs = "xor_checksum (c XOR ?l) payload"
  let ?n = "length payload"
  have i: "i < ?n + 3"
    using assms(4) by (simp add: frame_bytes_Cons)
  consider (code) "i = 0" | (data) j where "i = Suc (Suc j)" "j < ?n" | (sum) "i = Suc (Suc ?n)"
  proof -
    obtain j where "i = 0 \<or> i = Suc (Suc j)"
      using assms(5) by (cases i; cases "i - 1") auto
    then show ?thesis
      using i that by (cases "j < ?n") auto
  qed
  then show ?thesis
  proof cases
    case code
    let ?c = "flip_bit k c"
    have ne: "xor_checksum (?c XOR ?l) payload \<noteq> ?cs"
    proof
      assume "xor_checksum (?c XOR ?l) payload = ?cs"
      then have "?c XOR ?l = c XOR ?l"
        by (rule xor_checksum_start_inj)
      then have "?c = c"
        by (rule xor_cancel_right)
      then show False
        using flip_bit_neq [OF assms(3), of c] by simp
    qed
    have "rx s = Byte ?c # Byte ?l # map Byte payload @ Byte ?cs # rest"
      using assms(6) code by (simp add: frame_bytes_Cons)
    then show ?thesis
      using read_frame_raw [OF assms(1,2), of ?c ?cs rest] ne by simp
  next
    case data
    let ?p = "payload[j := flip_bit k (payload ! j)]"
    have ne: "xor_checksum (c XOR ?l) ?p \<noteq> ?cs"
      by (rule xor_checksum_update) (use data(2) flip_bit_neq [OF assms(3)] in simp_all)
    have "rx s = Byte c # Byte (of_nat (length ?p)) # map Byte ?p @ Byte ?cs # rest"
      using assms(6) data by (simp add: frame_bytes_Cons list_update_append nth_append)
    moreover have "length ?p \<le> 255"
      using assms(2) by simp
    ultimately have "read_frame s =
      (if xor_checksum (c XOR of_nat (length ?p)) ?p \<noteq> ?cs then Inl ChecksumMismatch
       else case Response_of c of
              None \<Rightarrow> Inl UnknownCode
            | Some response \<Rightarrow> Inr (response, ?p),
       s\<lparr>rx := rest\<rparr>)"
      using read_frame_raw [OF assms(1), of ?p c ?cs rest] by blast
    then show ?thesis
      using ne by simp
  next
    case sum
    let ?x = "flip_bit k ?cs"
    have ne: "?cs \<noteq> ?x"
      using flip_bit_neq [OF assms(3), of ?cs] by simp
    have "rx s = Byte c # Byte ?l # map Byte payload @ Byte ?x # rest"
      using assms(6) sum by (simp add: frame_bytes_Cons list_update_append nth_append)
    then show ?thesis
      using read_frame_raw [OF assms(1,2), of c ?x rest] ne by simp
  qed
qed

subsection \<open>The frames written only grow\<close>

lemma send_command_tx_grows: "\<exists>fs. tx (snd (send_command s cmd data)) = tx s @ fs"
  by (auto simp: send_command_def serial_write_def split: option.splits list.splits)

lemma wait_ready_tx: "tx (snd (wait_ready n s)) = tx s"
proof (induction n arbitrary: s)
  case 0
  show ?case by simp
next
  case (Suc n)
  obtain r d s' where rr: "read_response s = ((r, d), s')"
    by (metis surj_pair)
  have t: "tx s' = tx s"
    using read_response_state [of s] rr by simp
  show ?case
    using Suc.IH [of s'] t by (simp add: rr)
qed

lemma send_attempts_tx_grows: "\<exists>fs. tx (snd (send_attempts n pc s)) = tx s @ fs"
proof (induction n arbitrary: s)
  case 0
  show ?case by simp
next
  case (Suc n)
  obtain b s1 where sc: "send_command s SEND_PACKET pc = (b, s1)"
    by (metis surj_pair)
  obtain f1 where t1: "tx s1 = tx s @ f1"
    using send_command_tx_grows [of s SEND_PACKET pc] sc by auto
  obtain r d s2 where rr: "read_response s1 = ((r, d), s2)"
    by (metis surj_pair)
  have t2: "tx s2 = tx s @ f1"
    using read_response_state [of s1] rr t1 by simp
  obtain f3 where t3: "tx (snd (send_attempts n pc s1)) = tx s @ f1 @ f3"
    using Suc.IH [of s1] t1 by auto
  obtain f4 where t4: "tx (snd (send_attempts n pc s2)) = tx s @ f1 @ f4"
    using Suc.IH [of s2] t2 by auto
  show ?case
    using t2 t3 t4 by (cases b) (auto simp: sc rr)
qed

lemma send_packets_tx_grows: "\<exists>fs. tx (snd (send_packets fd ks s)) = tx s @ fs"
proof (induction ks arbitrary: s)
  case Nil
  show ?case by simp
next
  case (Cons k ks)
  show ?case
  proof (cases "packet_content fd k")
    case None
    then show ?thesis by simp
  next
    case (Some pc)
    obtain b s1 where sa: "send_attempts max_retries pc s = (b, s1)"
      by (metis surj_pair)
    obtain f1 where t1: "tx s1 = tx s @ f1"
      using send_attempts_tx_grows [of max_retries pc s] sa by auto
    obtain f2 where t2: "tx (snd (send_command s1 ABORT_UPDATE [])) = tx s @ f1 @ f2"
      using send_command_tx_grows [of s1 ABORT_UPDATE "[]"] t1 by auto
    obtain f3 where t3: "tx (snd (send_packets fd ks s1)) = tx s @ f1 @ f3"
      using Cons.IH [of s1] t1 by auto
    show ?thesis
      using t2 t3 by (cases b) (auto simp: Some sa)
  qed
qed

lemma finish_update_tx_grows: "\<exists>fs. tx (snd (finish_update s)) = tx s @ fs"
proof -
  obtain b s1 where sc: "send_command s FINISH_UPDATE [] = (b, s1)"
    by (metis surj_pair)
  obtain f1 where t1: "tx s1 = tx s @ f1"
    using send_command_tx_grows [of s FINISH_UPDATE "[]"] sc by auto
  obtain r d s2 where rr: "read_response s1 = ((r, d), s2)"
    by (metis surj_pair)
  have t2: "tx s2 = tx s @ f1"
    using read_response_state [of s1] rr t1 by simp
  show ?thesis
    using t1 t2 by (cases b) (auto simp: finish_update_def sc rr)
qed

lemma session_tx_head:
  assumes "is_open s" "wfail s = []" "length vd = 16"
    and "0 \<le> v" "v < 2 ^ 32" "length fd < 2 ^ 32"
    and "rx s = response_frame VERSION_INFO vd @ rest"
  shows "\<exists>fs. tx (snd (send_update_file s (Content fd) v)) =
    tx s @ [command_frame GET_VERSION [], init_frame v (unpack_version_info vd) fd] @ fs"
proof -
  let ?hd = "[command_frame GET_VERSION [], init_frame v (unpack_version_info vd) fd]"
  let ?s2 = "s\<lparr>tx := tx s @ ?hd, rx := rest\<rparr>"
  have ini: "send_update_file s (Content fd) v =
    (case wait_ready max_retries ?s2 of
       (Some f, s3) \<Rightarrow> (Failed f, s3)
     | (None, s3) \<Rightarrow>
         (case send_packets fd [0..<total_packets (length fd)] s3 of
            (Some out, s4) \<Rightarrow> (out, s4)
          | (None, s4) \<Rightarrow> finish_update s4))"
    using assms by (rule session_init)
  obtain w s3 where wr: "wait_ready max_retries ?s2 = (w, s3)"
    by (metis surj_pair)
  have t3: "tx s3 = tx s @ ?hd"
    using wait_ready_tx [of max_retries ?s2] wr by simp
  obtain p s4 where sp: "send_packets fd [0..<total_packets (length fd)] s3 = (p, s4)"
    by (metis surj_pair)
  obtain f4 where t4: "tx s4 = tx s @ ?hd @ f4"
    using send_packets_tx_grows [of fd "[0..<total_packets (length fd)]" s3] sp t3 by auto
  obtain f5 where t5: "tx (snd (finish_update s4)) = tx s @ ?hd @ f4 @ f5"
    using finish_update_tx_grows [of s4] t4 by auto
  have "send_update_file s (Content fd) v =
      (case w of
         Some f \<Rightarrow> (Failed f, s3)
       | None \<Rightarrow> (case p of Some out \<Rightarrow> (out, s4) | None \<Rightarrow> finish_update s4))"
    by (simp only: ini wr sp split_conv)
  then show ?thesis
    using t3 t4 t5 by (cases w; cases p) auto
qed

section \<open>The claims\<close>

text \<open>
  C1. Frame round trip: for every response code of the protocol and every payload of at
  most 255 bytes, the frame built around the code and the payload (code byte, length byte,
  payload, XOR of all bytes before) is read back by \<open>read_response\<close> as the same code
  and payload, and whatever follows the frame is left in the stream.
\<close>

theorem frame_round_trip:
  assumes "is_open s" and "length payload \<le> 255"
  shows "build_packet (response_value r) payload = Some (frame_bytes (response_value r) payload)
    \<and> read_response (s\<lparr>rx := response_frame r payload @ rest\<rparr>)
        = ((Some r, payload), s\<lparr>rx := rest\<rparr>)"
proof -
  let ?s = "s\<lparr>rx := response_frame r payload @ rest\<rparr>"
  have "read_response ?s = ((Some r, payload), ?s\<lparr>rx := rest\<rparr>)"
    by (rule read_response_frame) (use assms in simp_all)
  then show ?thesis
    using assms(2) by (simp add: build_packet_def)
qed

theorem frame_round_trip_witness:
  "is_open \<lparr>is_open = True, rx = [], tx = [], wfail = []\<rparr>
   \<and> length [0x03 :: byte] \<le> 255
   \<and> build_packet (response_value ERROR) [0x03] = Some [0x15, 0x01, 0x03, 0x17]
   \<and> read_response \<lparr>is_open = True, rx = map Byte [0x15, 0x01, 0x03, 0x17] @ [Byte 0x10],
         tx = [], wfail = []\<rparr>
       = ((Some ERROR, [0x03]), \<lparr>is_open = True, rx = [Byte 0x10], tx = [], wfail = []\<rparr>)"
  using frame_round_trip
    [of "\<lparr>is_open = True, rx = [], tx = [], wfail = []\<rparr>" "[0x03]" ERROR "[Byte 0x10]"]
  by (simp add: frame_bytes_def)

text \<open>
  C2. Target bank: with no firmware installed (current version 0) the target is bank A,
  0x200000; otherwise it is bank B, 0x300000, when the current address is bank A, and bank A
  in every other case. With firmware installed the target is never the current address.
  The session applies the rule to the version information it has just read: whatever the
  device does after answering the version query, the first two frames the session writes
  are the version query and an INIT\_UPDATE whose second field is that target.
\<close>

theorem target_bank_selection:
  "target_address vi =
     (if current_version vi = 0 then 0x200000
      else if current_address vi = 0x200000 then 0x300000
      else 0x200000)
   \<and> (current_version vi \<noteq> 0 \<longrightarrow> target_address vi \<noteq> current_address vi)
   \<and> (is_open s \<and> wfail s = [] \<and> length vd = 16 \<and> 0 \<le> v \<and> v < 2 ^ 32
        \<and> length fd < 2 ^ 32 \<and> rx s = response_frame VERSION_INFO vd @ rest
      \<longrightarrow> get_version_info s =
          (Some (unpack_version_info vd),
           s\<lparr>tx := tx s @ [command_frame GET_VERSION []], rx := rest\<rparr>)
        \<and> (\<exists>fs. tx (snd (send_update_file s (Content fd) v)) =
              tx s @
              [command_frame GET_VERSION [],
               command_frame INIT_UPDATE
                 (le_bytes 4 v @ le_bytes 4 (int (target_address (unpack_version_info vd))) @
                  le_bytes 4 (int (length fd)))] @ fs))"
proof (intro conjI impI)
  show "target_address vi =
     (if current_version vi = 0 then 0x200000
      else if current_address vi = 0x200000 then 0x300000
      else 0x200000)"
    by (simp add: target_address_def version_1_address_def version_2_address_def)
next
  assume "current_version vi \<noteq> 0"
  then show "target_address vi \<noteq> current_address vi"
    by (simp add: target_address_def version_1_address_def version_2_address_def)
next
  assume h: "is_open s \<and> wfail s = [] \<and> length vd = 16 \<and> 0 \<le> v \<and> v < 2 ^ 32
      \<and> length fd < 2 ^ 32 \<and> rx s = response_frame VERSION_INFO vd @ rest"
  show "get_version_info s =
      (Some (unpack_version_info vd),
       s\<lparr>tx := tx s @ [command_frame GET_VERSION []], rx := rest\<rparr>)"
    by (rule get_version_info_ok) (use h in blast)+
  show "\<exists>fs. tx (snd (send_update_file s (Content fd) v)) =
      tx s @
      [command_frame GET_VERSION [],
       command_frame INIT_UPDATE
         (le_bytes 4 v @ le_bytes 4 (int (target_address (unpack_version_info vd))) @
          le_bytes 4 (int (length fd)))] @ fs"
    by (rule session_tx_head) (use h in blast)+
qed

theorem target_bank_selection_witness:
  "unpack_version_info [2, 0, 0, 0, 1, 0, 0, 0, 0, 0, 0x20, 0, 0, 0, 0x30, 0] =
     \<lparr>current_version = 2, backup_version = 1,
      current_address = 0x200000, backup_address = 0x300000\<rparr>
   \<and> target_address \<lparr>current_version = 2, backup_version = 1,
       current_address = 0x200000, backup_address = 0x300000\<rparr> = 0x300000
   \<and> (\<exists>fs. tx (snd (send_update_file
         \<lparr>is_open = True,
          rx = response_frame VERSION_INFO
                 [2, 0, 0, 0, 1, 0, 0, 0, 0, 0, 0x20, 0, 0, 0, 0x30, 0] @ [Timeout],
          tx = [], wfail = []\<rparr>
         (Content [0xAA, 0xBB]) 3)) =
       [command_frame GET_VERSION [],
        command_frame INIT_UPDATE (le_bytes 4 3 @ le_bytes 4 0x300000 @ le_bytes 4 2)] @ fs)"
proof -
  let ?vd = "[2, 0, 0, 0, 1, 0, 0, 0, 0, 0, 0x20, 0, 0, 0, 0x30, 0] :: byte list"
  let ?vi = "\<lparr>current_version = 2, backup_version = 1,
      current_address = 0x200000, backup_address = 0x300000\<rparr>"
  let ?s = "\<lparr>is_open = True, rx = response_frame VERSION_INFO ?vd @ [Timeout],
      tx = [], wfail = []\<rparr>"
  let ?fd = "[0xAA, 0xBB] :: byte list"
  note w = target_bank_selection [of ?vi ?s ?vd 3 ?fd "[Timeout]"]
  have u: "unpack_version_info ?vd = ?vi"
    by (simp add: unpack_version_info_def)
  have v: "current_version ?vi \<noteq> 0"
    by simp
  have t: "target_address ?vi = 0x300000"
    using w by simp
  have hyp: "is_open ?s \<and> wfail ?s = [] \<and> length ?vd = 16 \<and> (0 :: int) \<le> 3
      \<and> (3 :: int) < 2 ^ 32 \<and> length ?fd < 2 ^ 32
      \<and> rx ?s = response_frame VERSION_INFO ?vd @ [Timeout]"
    by simp
  have "\<exists>fs. tx (snd (send_update_file ?s (Content ?fd) 3)) =
      tx ?s @
      [command_frame GET_VERSION [],
       command_frame INIT_UPDATE
         (le_bytes 4 3 @ le_bytes 4 (int (target_address (unpack_version_info ?vd))) @
          le_bytes 4 (int (length ?fd)))] @ fs"
    using w hyp by blast
  then have "\<exists>fs. tx (snd (send_update_file ?s (Content ?fd) 3)) =
      [command_frame GET_VERSION [],
       command_frame INIT_UPDATE (le_bytes 4 3 @ le_bytes 4 0x300000 @ le_bytes 4 2)] @ fs"
    unfolding u t by simp
  then show ?thesis
    using u t by blast
qed

text \<open>
  C3, as amended. Chunking: the number of packets is the file size divided by 16, rounded
  up. The data field of packet \<open>k\<close> is the 16-byte slice of the image at offset
  \<open>16 * k\<close>, padded on the right with 0xFF to 16 bytes when it is shorter. A file of 16
  bytes gives one packet with no padding; a file of 17 bytes gives two, the second being
  one byte and 15 bytes of 0xFF. For a file of at most \<open>16 * 65536\<close> bytes, when the
  device acknowledges every packet at once, the session writes the version query, the
  INIT\_UPDATE frame, the frames of packets \<open>0\<close> to \<open>total_packets - 1\<close> in order, once
  each, then FINISH\_UPDATE, and completes.
\<close>

theorem chunking:
  "total_packets (length fd) = (length fd + 15) div 16
   \<and> length fd \<le> 16 * total_packets (length fd)
   \<and> 16 * total_packets (length fd) < length fd + 16
   \<and> (\<forall>k. packet_data fd k =
          take 16 (drop (16 * k) fd) @
          replicate (16 - length (take 16 (drop (16 * k) fd))) 0xFF)
   \<and> (length fd = 16 \<longrightarrow> total_packets (length fd) = 1 \<and> packet_data fd 0 = fd)
   \<and> (length fd = 17 \<longrightarrow>
        total_packets (length fd) = 2 \<and> packet_data fd 0 = take 16 fd
        \<and> packet_data fd 1 = drop 16 fd @ replicate 15 0xFF)
   \<and> (is_open s \<and> wfail s = [] \<and> length vd = 16 \<and> 0 \<le> v \<and> v < 2 ^ 32
        \<and> length fd \<le> 16 * 65536
        \<and> rx s = response_frame VERSION_INFO vd @ response_frame READY [] @
             concat (replicate (total_packets (length fd)) (response_frame ACK [])) @
             response_frame ACK [] @ rest
      \<longrightarrow> send_update_file s (Content fd) v =
          (Completed,
           s\<lparr>tx := tx s @ [command_frame GET_VERSION [],
                             init_frame v (unpack_version_info vd) fd] @
                      map (packet_frame fd) [0..<total_packets (length fd)] @
                      [command_frame FINISH_UPDATE []],
             rx := rest\<rparr>))"
proof -
  have a: "total_packets (length fd) = (length fd + 15) div 16"
    by (simp add: total_packets_def packet_size_def)
  have b: "length fd = 16 \<longrightarrow> total_packets (length fd) = 1 \<and> packet_data fd 0 = fd"
    by (simp add: total_packets_def packet_size_def packet_data_slice)
  have c: "length fd = 17 \<longrightarrow>
        total_packets (length fd) = 2 \<and> packet_data fd 0 = take 16 fd
        \<and> packet_data fd 1 = drop 16 fd @ replicate 15 0xFF"
    by (simp add: total_packets_def packet_size_def packet_data_slice)
  show ?thesis
    using total_packets_ceil [of "length fd"] packet_data_slice [of fd] b c
      session_completed [of s vd v fd rest]
    by (simp only: a [symmetric]) blast
qed


theorem chunking_witness:
  "length [1, 2, 3, 4, 5, 6, 7, 8, 9, 10, 11, 12, 13, 14, 15, 16, 17 :: byte] = 17
   \<and> total_packets 17 = 2
   \<and> packet_data [1, 2, 3, 4, 5, 6, 7, 8, 9, 10, 11, 12, 13, 14, 15, 16, 17] 1 =
       [17, 255, 255, 255, 255, 255, 255, 255, 255, 255, 255, 255, 255, 255, 255, 255]
   \<and> length [1, 2, 3, 4, 5, 6, 7, 8, 9, 10, 11, 12, 13, 14, 15, 16 :: byte] = 16
   \<and> total_packets 16 = 1
   \<and> packet_data [1, 2, 3, 4, 5, 6, 7, 8, 9, 10, 11, 12, 13, 14, 15, 16] 0 =
       [1, 2, 3, 4, 5, 6, 7, 8, 9, 10, 11, 12, 13, 14, 15, 16]
   \<and> send_update_file
        \<lparr>is_open = True,
         rx = response_frame VERSION_INFO (replicate 16 0) @ response_frame READY [] @
              concat (replicate 2 (response_frame ACK [])) @ response_frame ACK [] @ [],
         tx = [], wfail = []\<rparr>
        (Content [1, 2, 3, 4, 5, 6, 7, 8, 9, 10, 11, 12, 13, 14, 15, 16, 17]) 1 =
       (Completed,
        \<lparr>is_open = True, rx = [],
         tx = [command_frame GET_VERSION [],
               init_frame 1 (unpack_version_info (replicate 16 0))
                 [1, 2, 3, 4, 5, 6, 7, 8, 9, 10, 11, 12, 13, 14, 15, 16, 17],
               packet_frame [1, 2, 3, 4, 5, 6, 7, 8, 9, 10, 11, 12, 13, 14, 15, 16, 17] 0,
               packet_frame [1, 2, 3, 4, 5, 6, 7, 8, 9, 10, 11, 12, 13, 14, 15, 16, 17] 1,
               command_frame FINISH_UPDATE []],
         wfail = []\<rparr>)"
proof -
  let ?fd = "[1, 2, 3, 4, 5, 6, 7, 8, 9, 10, 11, 12, 13, 14, 15, 16, 17 :: byte]"
  let ?fe = "[1, 2, 3, 4, 5, 6, 7, 8, 9, 10, 11, 12, 13, 14, 15, 16 :: byte]"
  let ?s = "\<lparr>is_open = True,
         rx = response_frame VERSION_INFO (replicate 16 0) @ response_frame READY [] @
              concat (replicate 2 (response_frame ACK [])) @ response_frame ACK [] @ [],
         tx = [], wfail = []\<rparr>"
  note w = chunking [of ?fd ?s "replicate 16 0" 1 "[]"]
  note e = chunking [of ?fe]
  have l17: "length ?fd = 17" and l16: "length ?fe = 16"
    by simp_all
  have n: "total_packets (length ?fd) = 2"
    using w l17 by blast
  have p1: "packet_data ?fd 1 = drop 16 ?fd @ replicate 15 0xFF"
    using w l17 by blast
  have m: "total_packets (length ?fe) = 1" and p0: "packet_data ?fe 0 = ?fe"
    using e l16 by blast+
  have hyp: "is_open ?s \<and> wfail ?s = [] \<and> length (replicate 16 (0 :: byte)) = 16
      \<and> (0 :: int) \<le> 1 \<and> (1 :: int) < 2 ^ 32 \<and> length ?fd \<le> 16 * 65536
      \<and> rx ?s = response_frame VERSION_INFO (replicate 16 0) @ response_frame READY [] @
             concat (replicate (total_packets (length ?fd)) (response_frame ACK [])) @
             response_frame ACK [] @ []"
    unfolding n by simp
  have run: "send_update_file ?s (Content ?fd) 1 =
      (Completed,
       ?s\<lparr>tx := tx ?s @ [command_frame GET_VERSION [],
                          init_frame 1 (unpack_version_info (replicate 16 0)) ?fd] @
                  map (packet_frame ?fd) [0..<total_packets (length ?fd)] @
                  [command_frame FINISH_UPDATE []],
          rx := []\<rparr>)"
    using w hyp by blast
  have two: "[0..<2] = [0, Suc 0]"
    by (simp add: upt_rec)
  show ?thesis
    unfolding run n two
    using n p1 m p0 by (simp add: numeral_eq_Suc)
qed

text \<open>
  C3 for every image fails above that size. A file of 1048577 bytes has 65537 packets.
  With every packet acknowledged at once, and two more ACK frames waiting, the session
  ends in the uncaught packing error of packet 65536: it has written the version query,
  INIT\_UPDATE and 65536 packet frames, one fewer than \<open>total_packets\<close>, and leaves the
  two ACK frames unread.
\<close>

theorem chunking_counterexample:
  "total_packets (length (replicate 1048577 (0 :: byte))) = 65537
   \<and> fst (send_update_file
        \<lparr>is_open = True,
         rx = response_frame VERSION_INFO (replicate 16 0) @ response_frame READY [] @
              concat (replicate 65536 (response_frame ACK [])) @
              response_frame ACK [] @ response_frame ACK [],
         tx = [], wfail = []\<rparr>
        (Content (replicate 1048577 0)) 1) = Raised
   \<and> length (tx (snd (send_update_file
        \<lparr>is_open = True,
         rx = response_frame VERSION_INFO (replicate 16 0) @ response_frame READY [] @
              concat (replicate 65536 (response_frame ACK [])) @
              response_frame ACK [] @ response_frame ACK [],
         tx = [], wfail = []\<rparr>
        (Content (replicate 1048577 0)) 1))) = 2 + 65536
   \<and> rx (snd (send_update_file
        \<lparr>is_open = True,
         rx = response_frame VERSION_INFO (replicate 16 0) @ response_frame READY [] @
              concat (replicate 65536 (response_frame ACK [])) @
              response_frame ACK [] @ response_frame ACK [],
         tx = [], wfail = []\<rparr>
        (Content (replicate 1048577 0)) 1)) = response_frame ACK [] @ response_frame ACK []"
proof -
  let ?fd = "replicate 1048577 (0 :: byte)"
  let ?vd = "replicate 16 (0 :: byte)"
  let ?rest = "response_frame ACK [] @ response_frame ACK []"
  let ?s = "\<lparr>is_open = True,
         rx = response_frame VERSION_INFO ?vd @ response_frame READY [] @
              concat (replicate 65536 (response_frame ACK [])) @ ?rest,
         tx = [], wfail = []\<rparr>"
  have n: "total_packets (length ?fd) = 65537"
    by (simp add: total_packets_def packet_size_def)
  have run: "send_update_file ?s (Content ?fd) 1 =
      (Raised,
       ?s\<lparr>tx := tx ?s @ [command_frame GET_VERSION [],
                          init_frame 1 (unpack_version_info ?vd) ?fd] @
                  map (packet_frame ?fd) [0..<65536],
          rx := ?rest\<rparr>)"
    by (rule session_raised) simp_all
  show ?thesis
    unfolding run using n by simp
qed

text \<open>
  C4. Retry budget of a packet, \<open>max_retries = 3\<close>. The session has reached packet
  \<open>k\<close>, every packet before it acknowledged at once. If the device then answers
  CHECKSUM\_ERROR \<open>max_retries - 1\<close> times and ACK after that, the packet has succeeded:
  its frame was written \<open>max_retries\<close> times, the same bytes each time, and the transfer
  goes on with packet \<open>k + 1\<close> to its end. If the device answers CHECKSUM\_ERROR
  \<open>max_retries\<close> times, the frame was written \<open>max_retries\<close> times, then ABORT\_UPDATE
  once, as the last frame and nowhere before, and the session ends aborted at packet \<open>k\<close>.
\<close>

theorem retry_budget:
  assumes "is_open s" and "wfail s = []" and "length vd = 16"
    and "0 \<le> v" and "v < 2 ^ 32" and "length fd \<le> 16 * 65536"
    and "k < total_packets (length fd)"
  shows "max_retries = 3
    \<and> (rx s = response_frame VERSION_INFO vd @ response_frame READY [] @
           concat (replicate k (response_frame ACK [])) @
           concat (replicate (max_retries - 1) (response_frame CHECKSUM_ERROR [])) @
           response_frame ACK [] @
           concat (replicate (total_packets (length fd) - Suc k) (response_frame ACK [])) @
           response_frame ACK [] @ rest
       \<longrightarrow> send_update_file s (Content fd) v =
           (Completed,
            s\<lparr>tx := tx s @ [command_frame GET_VERSION [],
                              init_frame v (unpack_version_info vd) fd] @
                       map (packet_frame fd) [0..<k] @
                       replicate max_retries (packet_frame fd k) @
                       map (packet_frame fd) [Suc k..<total_packets (length fd)] @
                       [command_frame FINISH_UPDATE []],
              rx := rest\<rparr>))
    \<and> (rx s = response_frame VERSION_INFO vd @ response_frame READY [] @
           concat (replicate k (response_frame ACK [])) @
           concat (replicate max_retries (response_frame CHECKSUM_ERROR [])) @ rest
       \<longrightarrow> send_update_file s (Content fd) v =
           (Aborted k,
            s\<lparr>tx := tx s @ [command_frame GET_VERSION [],
                              init_frame v (unpack_version_info vd) fd] @
                       map (packet_frame fd) [0..<k] @
                       replicate max_retries (packet_frame fd k) @
                       [command_frame ABORT_UPDATE []],
              rx := rest\<rparr>)
         \<and> command_frame ABORT_UPDATE [] \<notin>
             set ([command_frame GET_VERSION [],
                   init_frame v (unpack_version_info vd) fd] @
                  map (packet_frame fd) [0..<k] @
                  replicate max_retries (packet_frame fd k)))"
proof (intro conjI impI)
  show "max_retries = 3"
    by (simp add: max_retries_def)
next
  assume rx: "rx s = response_frame VERSION_INFO vd @ response_frame READY [] @
       concat (replicate k (response_frame ACK [])) @
       concat (replicate (max_retries - 1) (response_frame CHECKSUM_ERROR [])) @
       response_frame ACK [] @
       concat (replicate (total_packets (length fd) - Suc k) (response_frame ACK [])) @
       response_frame ACK [] @ rest"
  have j: "max_retries - 1 < max_retries" and m: "Suc (max_retries - 1) = max_retries"
    by (simp_all add: max_retries_def)
  show "send_update_file s (Content fd) v =
      (Completed,
       s\<lparr>tx := tx s @ [command_frame GET_VERSION [],
                         init_frame v (unpack_version_info vd) fd] @
                  map (packet_frame fd) [0..<k] @
                  replicate max_retries (packet_frame fd k) @
                  map (packet_frame fd) [Suc k..<total_packets (length fd)] @
                  [command_frame FINISH_UPDATE []],
         rx := rest\<rparr>)"
    using session_errors_completed [OF assms j rx] by (simp only: m)
next
  assume rx: "rx s = response_frame VERSION_INFO vd @ response_frame READY [] @
       concat (replicate k (response_frame ACK [])) @
       concat (replicate max_retries (response_frame CHECKSUM_ERROR [])) @ rest"
  have k: "k < 65536"
    using total_packets_bound [OF assms(6)] assms(7) by simp
  show "send_update_file s (Content fd) v =
      (Aborted k,
       s\<lparr>tx := tx s @ [command_frame GET_VERSION [],
                         init_frame v (unpack_version_info vd) fd] @
                  map (packet_frame fd) [0..<k] @
                  replicate max_retries (packet_frame fd k) @
                  [command_frame ABORT_UPDATE []],
         rx := rest\<rparr>)"
    by (rule session_errors_aborted [OF assms(1-5) size_bound [OF assms(6)] assms(7) k rx])
next
  show "command_frame ABORT_UPDATE [] \<notin>
      set ([command_frame GET_VERSION [], init_frame v (unpack_version_info vd) fd] @
           map (packet_frame fd) [0..<k] @ replicate max_retries (packet_frame fd k))"
    by (rule abort_frame_not_sent)
qed

theorem retry_budget_witness:
  "send_update_file
     \<lparr>is_open = True,
      rx = response_frame VERSION_INFO (replicate 16 0) @ response_frame READY [] @
           response_frame ACK [] @
           response_frame CHECKSUM_ERROR [] @ response_frame CHECKSUM_ERROR [] @
           response_frame ACK [] @ response_frame ACK [] @ [],
      tx = [], wfail = []\<rparr>
     (Content (replicate 20 0xAB)) 1 =
    (Completed,
     \<lparr>is_open = True, rx = [],
      tx = [command_frame GET_VERSION [],
            init_frame 1 (unpack_version_info (replicate 16 0)) (replicate 20 0xAB),
            packet_frame (replicate 20 0xAB) 0,
            packet_frame (replicate 20 0xAB) 1,
            packet_frame (replicate 20 0xAB) 1,
            packet_frame (replicate 20 0xAB) 1,
            command_frame FINISH_UPDATE []],
      wfail = []\<rparr>)
   \<and> send_update_file
     \<lparr>is_open = True,
      rx = response_frame VERSION_INFO (replicate 16 0) @ response_frame READY [] @
           response_frame ACK [] @
           response_frame CHECKSUM_ERROR [] @ response_frame CHECKSUM_ERROR [] @
           response_frame CHECKSUM_ERROR [] @ [Byte 0x10],
      tx = [], wfail = []\<rparr>
     (Content (replicate 20 0xAB)) 1 =
    (Aborted 1,
     \<lparr>is_open = True, rx = [Byte 0x10],
      tx = [command_frame GET_VERSION [],
            init_frame 1 (unpack_version_info (replicate 16 0)) (replicate 20 0xAB),
            packet_frame (replicate 20 0xAB) 0,
            packet_frame (replicate 20 0xAB) 1,
            packet_frame (replicate 20 0xAB) 1,
            packet_frame (replicate 20 0xAB) 1,
            command_frame ABORT_UPDATE []],
      wfail = []\<rparr>)"
proof -
  let ?fd = "replicate 20 (0xAB :: byte)"
  let ?vd = "replicate 16 (0 :: byte)"
  let ?a = "\<lparr>is_open = True,
      rx = response_frame VERSION_INFO ?vd @ response_frame READY [] @
           response_frame ACK [] @
           response_frame CHECKSUM_ERROR [] @ response_frame CHECKSUM_ERROR [] @
           response_frame ACK [] @ response_frame ACK [] @ [],
      tx = [], wfail = []\<rparr>"
  let ?b = "\<lparr>is_open = True,
      rx = response_frame VERSION_INFO ?vd @ response_frame READY [] @
           response_frame ACK [] @
           response_frame CHECKSUM_ERROR [] @ response_frame CHECKSUM_ERROR [] @
           response_frame CHECKSUM_ERROR [] @ [Byte 0x10],
      tx = [], wfail = []\<rparr>"
  have n: "total_packets (length ?fd) = 2"
    by (simp add: total_packets_def packet_size_def)
  have r: "max_retries = Suc (Suc (Suc 0))"
    by (simp add: max_retries_def)
  have one: "[0..<Suc 0] = [0]" and none: "[Suc (Suc 0)..<2] = []"
    by simp_all
  have k: "Suc 0 < total_packets (length ?fd)"
    unfolding n by simp
  have len: "length ?fd \<le> 16 * 65536"
    by simp
  have ha: "rx ?a = response_frame VERSION_INFO ?vd @ response_frame READY [] @
       concat (replicate (Suc 0) (response_frame ACK [])) @
       concat (replicate (max_retries - 1) (response_frame CHECKSUM_ERROR [])) @
       response_frame ACK [] @
       concat (replicate (total_packets (length ?fd) - Suc (Suc 0)) (response_frame ACK [])) @
       response_frame ACK [] @ []"
    unfolding n r by simp
  have hb: "rx ?b = response_frame VERSION_INFO ?vd @ response_frame READY [] @
       concat (replicate (Suc 0) (response_frame ACK [])) @
       concat (replicate max_retries (response_frame CHECKSUM_ERROR [])) @ [Byte 0x10]"
    unfolding r by simp
  have a: "send_update_file ?a (Content ?fd) 1 =
      (Completed,
       ?a\<lparr>tx := tx ?a @ [command_frame GET_VERSION [],
                          init_frame 1 (unpack_version_info ?vd) ?fd] @
                  map (packet_frame ?fd) [0..<Suc 0] @
                  replicate max_retries (packet_frame ?fd (Suc 0)) @
                  map (packet_frame ?fd) [Suc (Suc 0)..<total_packets (length ?fd)] @
                  [command_frame FINISH_UPDATE []],
          rx := []\<rparr>)"
    using retry_budget [of ?a ?vd 1 ?fd "Suc 0" "[]", OF _ _ _ _ _ len k] ha by simp
  have b: "send_update_file ?b (Content ?fd) 1 =
      (Aborted (Suc 0),
       ?b\<lparr>tx := tx ?b @ [command_frame GET_VERSION [],
                          init_frame 1 (unpack_version_info ?vd) ?fd] @
                  map (packet_frame ?fd) [0..<Suc 0] @
                  replicate max_retries (packet_frame ?fd (Suc 0)) @
                  [command_frame ABORT_UPDATE []],
          rx := [Byte 0x10]\<rparr>)"
    using retry_budget [of ?b ?vd 1 ?fd "Suc 0" "[Byte 0x10]", OF _ _ _ _ _ len k] hb by simp
  show ?thesis
    unfolding a b n r one none by simp
qed

text \<open>
  C5. A NACK during the transfer is terminal. The session has reached packet \<open>k\<close>, every
  packet before it acknowledged at once, and the device answers NACK to packet \<open>k\<close>,
  after \<open>j\<close> checksum errors (\<open>j\<close> below \<open>max_retries\<close>, none when \<open>j = 0\<close>). The
  frame of packet \<open>k\<close> was written once for each checksum error and once for the attempt
  that got the NACK, never after it; ABORT\_UPDATE follows, once, as the last frame; the
  session ends aborted at packet \<open>k\<close>, reads nothing more, and no packet with a number
  above \<open>k\<close> was written.
\<close>

theorem nack_is_terminal:
  assumes "is_open s" and "wfail s = []" and "length vd = 16"
    and "0 \<le> v" and "v < 2 ^ 32" and "length fd < 2 ^ 32"
    and "k < total_packets (length fd)" and "k < 65536" and "j < max_retries"
    and "rx s = response_frame VERSION_INFO vd @ response_frame READY [] @
           concat (replicate k (response_frame ACK [])) @
           concat (replicate j (response_frame CHECKSUM_ERROR [])) @
           response_frame NACK [] @ rest"
  shows "send_update_file s (Content fd) v =
      (Aborted k,
       s\<lparr>tx := tx s @ [command_frame GET_VERSION [],
                         init_frame v (unpack_version_info vd) fd] @
                  map (packet_frame fd) [0..<k] @
                  replicate (Suc j) (packet_frame fd k) @
                  [command_frame ABORT_UPDATE []],
         rx := rest\<rparr>)
    \<and> command_frame ABORT_UPDATE [] \<notin>
        set ([command_frame GET_VERSION [], init_frame v (unpack_version_info vd) fd] @
             map (packet_frame fd) [0..<k] @ replicate (Suc j) (packet_frame fd k))
    \<and> (\<forall>m. k < m \<and> m < 65536 \<longrightarrow>
          packet_frame fd m \<notin>
          set ([command_frame GET_VERSION [], init_frame v (unpack_version_info vd) fd] @
               map (packet_frame fd) [0..<k] @ replicate (Suc j) (packet_frame fd k) @
               [command_frame ABORT_UPDATE []]))"
proof (intro conjI allI impI)
  show "send_update_file s (Content fd) v =
      (Aborted k,
       s\<lparr>tx := tx s @ [command_frame GET_VERSION [],
                         init_frame v (unpack_version_info vd) fd] @
                  map (packet_frame fd) [0..<k] @
                  replicate (Suc j) (packet_frame fd k) @
                  [command_frame ABORT_UPDATE []],
         rx := rest\<rparr>)"
    using assms by (rule session_nack_aborted)
next
  show "command_frame ABORT_UPDATE [] \<notin>
      set ([command_frame GET_VERSION [], init_frame v (unpack_version_info vd) fd] @
           map (packet_frame fd) [0..<k] @ replicate (Suc j) (packet_frame fd k))"
    by (rule abort_frame_not_sent)
next
  fix m
  assume "k < m \<and> m < 65536"
  then show "packet_frame fd m \<notin>
      set ([command_frame GET_VERSION [], init_frame v (unpack_version_info vd) fd] @
           map (packet_frame fd) [0..<k] @ replicate (Suc j) (packet_frame fd k) @
           [command_frame ABORT_UPDATE []])"
    using later_packets_not_sent [of k m fd v "unpack_version_info vd" "Suc j"] by blast
qed

theorem nack_is_terminal_witness:
  "total_packets (length (replicate 70 (0x5A :: byte))) = 5
   \<and> send_update_file
     \<lparr>is_open = True,
      rx = response_frame VERSION_INFO (replicate 16 0) @ response_frame READY [] @
           response_frame ACK [] @ response_frame NACK [] @
           response_frame ACK [] @ response_frame ACK [],
      tx = [], wfail = []\<rparr>
     (Content (replicate 70 0x5A)) 1 =
    (Aborted 1,
     \<lparr>is_open = True, rx = response_frame ACK [] @ response_frame ACK [],
      tx = [command_frame GET_VERSION [],
            init_frame 1 (unpack_version_info (replicate 16 0)) (replicate 70 0x5A),
            packet_frame (replicate 70 0x5A) 0,
            packet_frame (replicate 70 0x5A) 1,
            command_frame ABORT_UPDATE []],
      wfail = []\<rparr>)"
proof -
  let ?fd = "replicate 70 (0x5A :: byte)"
  let ?vd = "replicate 16 (0 :: byte)"
  let ?rest = "response_frame ACK [] @ response_frame ACK []"
  let ?s = "\<lparr>is_open = True,
      rx = response_frame VERSION_INFO ?vd @ response_frame READY [] @
           response_frame ACK [] @ response_frame NACK [] @ ?rest,
      tx = [], wfail = []\<rparr>"
  have n: "total_packets (length ?fd) = 5"
    by (simp add: total_packets_def packet_size_def)
  have k: "Suc 0 < total_packets (length ?fd)"
    unfolding n by simp
  have j: "0 < max_retries"
    by (simp add: max_retries_def)
  have one: "[0..<Suc 0] = [0]"
    by simp
  have h: "rx ?s = response_frame VERSION_INFO ?vd @ response_frame READY [] @
       concat (replicate (Suc 0) (response_frame ACK [])) @
       concat (replicate 0 (response_frame CHECKSUM_ERROR [])) @
       response_frame NACK [] @ ?rest"
    by simp
  have "send_update_file ?s (Content ?fd) 1 =
      (Aborted (Suc 0),
       ?s\<lparr>tx := tx ?s @ [command_frame GET_VERSION [],
                          init_frame 1 (unpack_version_info ?vd) ?fd] @
                  map (packet_frame ?fd) [0..<Suc 0] @
                  replicate (Suc 0) (packet_frame ?fd (Suc 0)) @
                  [command_frame ABORT_UPDATE []],
          rx := ?rest\<rparr>)"
    using nack_is_terminal [of ?s ?vd 1 ?fd "Suc 0" 0 ?rest, OF _ _ _ _ _ _ k _ j h]
    by simp
  then show ?thesis
    unfolding n one by simp
qed

text \<open>
  C6. An ERROR answer to INIT\_UPDATE ends the session at once. With a payload of one byte
  the session fails with the message of the table for that code (1 Bad length, 2 Update
  already in progress, 3 Invalid file size, 4 Invalid target address, 5 Flash erase
  failed), and with \<^verbatim>\<open>Unknown error\<close> and the code in decimal for any other code; with
  an empty payload it fails with the generic error. In both cases only the one answer was
  read, the frames written are the version query and INIT\_UPDATE, and no SEND\_PACKET
  frame is among them.
\<close>

theorem init_error_is_terminal:
  assumes "is_open s" and "wfail s = []" and "length vd = 16"
    and "0 \<le> v" and "v < 2 ^ 32" and "length fd < 2 ^ 32"
  shows "(rx s = response_frame VERSION_INFO vd @ response_frame ERROR [code] @ rest
       \<longrightarrow> send_update_file s (Content fd) v =
           (Failed (DeviceError (error_message code)),
            s\<lparr>tx := tx s @ [command_frame GET_VERSION [],
                              init_frame v (unpack_version_info vd) fd],
              rx := rest\<rparr>))
    \<and> (rx s = response_frame VERSION_INFO vd @ response_frame ERROR [] @ rest
       \<longrightarrow> send_update_file s (Content fd) v =
           (Failed GenericDeviceError,
            s\<lparr>tx := tx s @ [command_frame GET_VERSION [],
                              init_frame v (unpack_version_info vd) fd],
              rx := rest\<rparr>))
    \<and> error_message 1 = ''Bad length''
    \<and> error_message 2 = ''Update already in progress''
    \<and> error_message 3 = ''Invalid file size''
    \<and> error_message 4 = ''Invalid target address''
    \<and> error_message 5 = ''Flash erase failed''
    \<and> (unat code \<notin> {1, 2, 3, 4, 5}
       \<longrightarrow> error_message code = ''Unknown error '' @ str_nat (unat code))
    \<and> (\<forall>m. packet_frame fd m \<notin>
          set [command_frame GET_VERSION [], init_frame v (unpack_version_info vd) fd])
    \<and> returned (Failed (DeviceError (error_message code))) = Some False
    \<and> returned (Failed GenericDeviceError) = Some False"
proof -
  have a: "send_update_file s (Content fd) v =
      (Failed (DeviceError (error_message code)),
       s\<lparr>tx := tx s @ [command_frame GET_VERSION [],
                         init_frame v (unpack_version_info vd) fd],
         rx := rest\<rparr>)"
    if "rx s = response_frame VERSION_INFO vd @ response_frame ERROR [code] @ rest"
    using session_init_error [OF assms _ that] by simp
  have b: "send_update_file s (Content fd) v =
      (Failed GenericDeviceError,
       s\<lparr>tx := tx s @ [command_frame GET_VERSION [],
                         init_frame v (unpack_version_info vd) fd],
         rx := rest\<rparr>)"
    if "rx s = response_frame VERSION_INFO vd @ response_frame ERROR [] @ rest"
    using session_init_error [OF assms _ that] by simp
  have c: "\<forall>m. packet_frame fd m \<notin>
      set [command_frame GET_VERSION [], init_frame v (unpack_version_info vd) fd]"
    using packet_frame_not_head by blast
  show ?thesis
    using a b c error_message_table error_message_other [of code]
    by (simp only: returned.simps) blast
qed

theorem init_error_is_terminal_witness:
  "send_update_file
     \<lparr>is_open = True,
      rx = response_frame VERSION_INFO (replicate 16 0) @ response_frame ERROR [3] @
           response_frame READY [],
      tx = [], wfail = []\<rparr>
     (Content (replicate 34 0x11)) 1 =
    (Failed (DeviceError ''Invalid file size''),
     \<lparr>is_open = True, rx = response_frame READY [],
      tx = [command_frame GET_VERSION [],
            init_frame 1 (unpack_version_info (replicate 16 0)) (replicate 34 0x11)],
      wfail = []\<rparr>)
   \<and> send_update_file
     \<lparr>is_open = True,
      rx = response_frame VERSION_INFO (replicate 16 0) @ response_frame ERROR [] @
           response_frame READY [],
      tx = [], wfail = []\<rparr>
     (Content (replicate 34 0x11)) 1 =
    (Failed GenericDeviceError,
     \<lparr>is_open = True, rx = response_frame READY [],
      tx = [command_frame GET_VERSION [],
            init_frame 1 (unpack_version_info (replicate 16 0)) (replicate 34 0x11)],
      wfail = []\<rparr>)
   \<and> unat (9 :: byte) \<notin> {1, 2, 3, 4, 5}
   \<and> error_message 9 = ''Unknown error 9''"
proof -
  let ?fd = "replicate 34 (0x11 :: byte)"
  let ?vd = "replicate 16 (0 :: byte)"
  let ?rest = "response_frame READY []"
  let ?a = "\<lparr>is_open = True,
      rx = response_frame VERSION_INFO ?vd @ response_frame ERROR [3] @ ?rest,
      tx = [], wfail = []\<rparr>"
  let ?b = "\<lparr>is_open = True,
      rx = response_frame VERSION_INFO ?vd @ response_frame ERROR [] @ ?rest,
      tx = [], wfail = []\<rparr>"
  note wa = init_error_is_terminal [of ?a ?vd 1 ?fd 3 ?rest]
  note wb = init_error_is_terminal [of ?b ?vd 1 ?fd 9 ?rest]
  have m3: "error_message 3 = ''Invalid file size''"
    using wa by simp
  have a: "send_update_file ?a (Content ?fd) 1 =
      (Failed (DeviceError (error_message 3)),
       ?a\<lparr>tx := tx ?a @ [command_frame GET_VERSION [],
                          init_frame 1 (unpack_version_info ?vd) ?fd],
          rx := ?rest\<rparr>)"
    using wa by simp
  have b: "send_update_file ?b (Content ?fd) 1 =
      (Failed GenericDeviceError,
       ?b\<lparr>tx := tx ?b @ [command_frame GET_VERSION [],
                          init_frame 1 (unpack_version_info ?vd) ?fd],
          rx := ?rest\<rparr>)"
    using wb by simp
  have nine: "unat (9 :: byte) \<notin> {1, 2, 3, 4, 5}"
    by simp
  have m9: "error_message 9 = ''Unknown error '' @ str_nat (unat (9 :: byte))"
    using wb nine by simp
  have s9: "str_nat (unat (9 :: byte)) = ''9''"
    by code_simp
  show ?thesis
    unfolding a b m3 m9 s9 using nine by simp
qed

text \<open>
  C9. A file of no bytes. The number of packets is 0 and the packet loop sends nothing.
  After the version query and an INIT\_UPDATE answered by READY the session goes
  straight to \<open>finish_update\<close>: the frames written in the whole session are the version
  query, INIT\_UPDATE and FINISH\_UPDATE, whatever the device answers after that, and the
  session completes when that answer is ACK.
\<close>

theorem empty_file_sends_no_packet:
  assumes "is_open s" and "wfail s = []" and "length vd = 16"
    and "0 \<le> v" and "v < 2 ^ 32"
    and "rx s = response_frame VERSION_INFO vd @ response_frame READY [] @ rest"
  shows "total_packets (length ([] :: byte list)) = 0
    \<and> send_packets [] [0..<total_packets (length ([] :: byte list))] s = (None, s)
    \<and> send_update_file s (Content []) v =
        finish_update
          (s\<lparr>tx := tx s @ [command_frame GET_VERSION [],
                            init_frame v (unpack_version_info vd) []],
             rx := rest\<rparr>)
    \<and> tx (snd (send_update_file s (Content []) v)) =
        tx s @ [command_frame GET_VERSION [], init_frame v (unpack_version_info vd) [],
                command_frame FINISH_UPDATE []]
    \<and> (\<forall>rest'. rest = response_frame ACK [] @ rest' \<longrightarrow>
          send_update_file s (Content []) v =
          (Completed,
           s\<lparr>tx := tx s @ [command_frame GET_VERSION [],
                             init_frame v (unpack_version_info vd) [],
                             command_frame FINISH_UPDATE []],
             rx := rest'\<rparr>))"
proof -
  let ?s3 = "s\<lparr>tx := tx s @ [command_frame GET_VERSION [],
                             init_frame v (unpack_version_info vd) []],
              rx := rest\<rparr>"
  have z0: "total_packets 0 = 0"
    by (simp add: total_packets_def packet_size_def)
  then have z: "total_packets (length ([] :: byte list)) = 0"
    by simp
  have loop: "send_packets [] [0..<total_packets (length ([] :: byte list))] s = (None, s)"
    by (simp add: z0)
  have run: "send_update_file s (Content []) v = finish_update ?s3"
    using assms by (rule session_empty_file)
  have "tx (snd (finish_update ?s3)) = tx ?s3 @ [command_frame FINISH_UPDATE []]"
    by (rule finish_update_tx) (use assms in simp_all)
  then have sent: "tx (snd (send_update_file s (Content []) v)) =
      tx s @ [command_frame GET_VERSION [], init_frame v (unpack_version_info vd) [],
              command_frame FINISH_UPDATE []]"
    by (simp add: run)
  have ack: "send_update_file s (Content []) v =
      (Completed,
       s\<lparr>tx := tx s @ [command_frame GET_VERSION [],
                         init_frame v (unpack_version_info vd) [],
                         command_frame FINISH_UPDATE []],
         rx := rest'\<rparr>)"
    if "rest = response_frame ACK [] @ rest'" for rest'
  proof -
    have "finish_update ?s3 =
        (if ACK = ACK then Completed else Failed FinalizationFailed,
         ?s3\<lparr>tx := tx ?s3 @ [command_frame FINISH_UPDATE []], rx := rest'\<rparr>)"
      by (rule finish_update_ok [where payload = "[]"]) (use assms that in simp_all)
    then show ?thesis
      by (simp add: run)
  qed
  show ?thesis
    using z loop run sent ack by blast
qed

theorem empty_file_sends_no_packet_witness:
  "send_update_file
     \<lparr>is_open = True,
      rx = response_frame VERSION_INFO (replicate 16 0) @ response_frame READY [] @
           response_frame ACK [],
      tx = [], wfail = []\<rparr>
     (Content []) 1 =
    (Completed,
     \<lparr>is_open = True, rx = [],
      tx = [command_frame GET_VERSION [],
            init_frame 1 (unpack_version_info (replicate 16 0)) [],
            command_frame FINISH_UPDATE []],
      wfail = []\<rparr>)"
proof -
  let ?vd = "replicate 16 (0 :: byte)"
  let ?s = "\<lparr>is_open = True,
      rx = response_frame VERSION_INFO ?vd @ response_frame READY [] @ response_frame ACK [],
      tx = [], wfail = []\<rparr>"
  have h: "rx ?s = response_frame VERSION_INFO ?vd @ response_frame READY [] @
      response_frame ACK []"
    by simp
  have e: "response_frame ACK [] = response_frame ACK [] @ []"
    by simp
  have h1: "is_open ?s" and h2: "wfail ?s = []" and h3: "length ?vd = 16"
    and h4: "(0 :: int) \<le> 1" and h5: "(1 :: int) < 2 ^ 32"
    by simp_all
  have "send_update_file ?s (Content []) 1 =
      (Completed,
       ?s\<lparr>tx := tx ?s @ [command_frame GET_VERSION [],
                          init_frame 1 (unpack_version_info ?vd) [],
                          command_frame FINISH_UPDATE []],
          rx := []\<rparr>)"
    using empty_file_sends_no_packet [of ?s ?vd 1 "response_frame ACK []", OF h1 h2 h3 h4 h5 h] e
    by blast
  then show ?thesis
    by simp
qed

text \<open>
  C10. The sequence field is two bytes, little-endian. For a packet number below 65536 the
  packet is built, is 19 bytes long and its first two bytes read back as the packet number;
  a file of at most \<open>16 * 65536\<close> bytes has all its packet numbers below 65536. For a
  packet number of 65536 or more the packing raises. So with a larger file, once the
  device has acknowledged packets 0 to 65535, the session ends in the uncaught error at
  packet 65536: it returns neither True nor False, the frames written are the version
  query, INIT\_UPDATE and the frames of packets 0 to 65535, and ABORT\_UPDATE is not
  among them.
\<close>

theorem sequence_number_width:
  "(\<forall>k < 65536. \<exists>pc. packet_content fd k = Some pc \<and> length pc = 19
        \<and> unpack_uint (take 2 pc) = k \<and> command_frame SEND_PACKET pc = packet_frame fd k)
   \<and> (length fd \<le> 16 * 65536 \<longrightarrow> (\<forall>k < total_packets (length fd). k < 65536))
   \<and> (\<forall>k \<ge> 65536. packet_content fd k = None)
   \<and> (is_open s \<and> wfail s = [] \<and> length vd = 16 \<and> 0 \<le> v \<and> v < 2 ^ 32
        \<and> 16 * 65536 < length fd \<and> length fd < 2 ^ 32
        \<and> rx s = response_frame VERSION_INFO vd @ response_frame READY [] @
             concat (replicate 65536 (response_frame ACK [])) @ rest
      \<longrightarrow> send_update_file s (Content fd) v =
          (Raised,
           s\<lparr>tx := tx s @ [command_frame GET_VERSION [],
                             init_frame v (unpack_version_info vd) fd] @
                      map (packet_frame fd) [0..<65536],
             rx := rest\<rparr>)
        \<and> returned Raised = None
        \<and> command_frame ABORT_UPDATE [] \<notin>
            set ([command_frame GET_VERSION [], init_frame v (unpack_version_info vd) fd] @
                 map (packet_frame fd) [0..<65536]))"
proof (intro conjI allI impI)
  fix k :: nat
  assume "k < 65536"
  then show "\<exists>pc. packet_content fd k = Some pc \<and> length pc = 19
      \<and> unpack_uint (take 2 pc) = k \<and> command_frame SEND_PACKET pc = packet_frame fd k"
    by (rule packet_content_index)
next
  fix k
  assume "length fd \<le> 16 * 65536" and "k < total_packets (length fd)"
  then show "k < 65536"
    using total_packets_bound [of fd] by simp
next
  fix k :: nat
  assume "65536 \<le> k"
  then show "packet_content fd k = None"
    by (rule packet_content_None)
next
  assume h: "is_open s \<and> wfail s = [] \<and> length vd = 16 \<and> 0 \<le> v \<and> v < 2 ^ 32
      \<and> 16 * 65536 < length fd \<and> length fd < 2 ^ 32
      \<and> rx s = response_frame VERSION_INFO vd @ response_frame READY [] @
           concat (replicate 65536 (response_frame ACK [])) @ rest"
  show "send_update_file s (Content fd) v =
      (Raised,
       s\<lparr>tx := tx s @ [command_frame GET_VERSION [],
                         init_frame v (unpack_version_info vd) fd] @
                  map (packet_frame fd) [0..<65536],
         rx := rest\<rparr>)"
    by (rule session_raised) (use h in blast)+
next
  show "returned Raised = None"
    by simp
next
  show "command_frame ABORT_UPDATE [] \<notin>
      set ([command_frame GET_VERSION [], init_frame v (unpack_version_info vd) fd] @
           map (packet_frame fd) [0..<65536])"
    by (rule abort_frame_not_in_packets)
qed

theorem sequence_number_width_witness:
  "16 * 65536 < length (replicate 1048577 (0 :: byte))
   \<and> send_update_file
       \<lparr>is_open = True,
        rx = response_frame VERSION_INFO (replicate 16 0) @ response_frame READY [] @
             concat (replicate 65536 (response_frame ACK [])) @ [],
        tx = [], wfail = []\<rparr>
       (Content (replicate 1048577 0)) 1 =
      (Raised,
       \<lparr>is_open = True, rx = [],
        tx = [command_frame GET_VERSION [],
              init_frame 1 (unpack_version_info (replicate 16 0)) (replicate 1048577 0)] @
             map (packet_frame (replicate 1048577 0)) [0..<65536],
        wfail = []\<rparr>)
   \<and> (\<exists>pc. packet_content (replicate 1048577 0) 65535 = Some pc \<and> length pc = 19
        \<and> unpack_uint (take 2 pc) = 65535)
   \<and> length (replicate 17 (0 :: byte)) \<le> 16 * 65536
   \<and> Suc 0 < total_packets (length (replicate 17 (0 :: byte)))
   \<and> Suc 0 < 65536
   \<and> packet_content (replicate 1048577 0) 65536 = None"
proof -
  let ?fd = "replicate 1048577 (0 :: byte)"
  let ?fe = "replicate 17 (0 :: byte)"
  let ?vd = "replicate 16 (0 :: byte)"
  let ?s = "\<lparr>is_open = True,
        rx = response_frame VERSION_INFO ?vd @ response_frame READY [] @
             concat (replicate 65536 (response_frame ACK [])) @ [],
        tx = [], wfail = []\<rparr>"
  note w = sequence_number_width [of ?fd ?s ?vd 1 "[]"]
  note e = sequence_number_width [of ?fe]
  have big: "16 * 65536 < length ?fd"
    by simp
  have small: "length ?fe \<le> 16 * 65536"
    by simp
  have hyp: "is_open ?s \<and> wfail ?s = [] \<and> length ?vd = 16 \<and> (0 :: int) \<le> 1
      \<and> (1 :: int) < 2 ^ 32 \<and> 16 * 65536 < length ?fd \<and> length ?fd < 2 ^ 32
      \<and> rx ?s = response_frame VERSION_INFO ?vd @ response_frame READY [] @
           concat (replicate 65536 (response_frame ACK [])) @ []"
    using big by simp
  have run: "send_update_file ?s (Content ?fd) 1 =
      (Raised,
       ?s\<lparr>tx := tx ?s @ [command_frame GET_VERSION [],
                          init_frame 1 (unpack_version_info ?vd) ?fd] @
                  map (packet_frame ?fd) [0..<65536],
          rx := []\<rparr>)"
    using w hyp by blast
  have last: "\<exists>pc. packet_content ?fd 65535 = Some pc \<and> length pc = 19
      \<and> unpack_uint (take 2 pc) = 65535"
  proof -
    have "\<forall>k < 65536. \<exists>pc. packet_content ?fd k = Some pc \<and> length pc = 19
        \<and> unpack_uint (take 2 pc) = k \<and> command_frame SEND_PACKET pc = packet_frame ?fd k"
      using w by blast
    moreover have "(65535 :: nat) < 65536"
      by simp
    ultimately show ?thesis
      by blast
  qed
  have under: "\<forall>k < total_packets (length ?fe). k < 65536"
    using e small by blast
  have two: "Suc 0 < total_packets (length ?fe)"
    by (simp add: total_packets_def packet_size_def)
  have one: "Suc 0 < 65536"
    using under two by blast
  have none: "packet_content ?fd 65536 = None"
  proof -
    have "\<forall>k \<ge> 65536. packet_content ?fd k = None"
      using w by blast
    then show ?thesis
      by simp
  qed
  have st: "?s\<lparr>tx := tx ?s @ [command_frame GET_VERSION [],
                          init_frame 1 (unpack_version_info ?vd) ?fd] @
                  map (packet_frame ?fd) [0..<65536],
          rx := []\<rparr> =
      \<lparr>is_open = True, rx = [],
        tx = [command_frame GET_VERSION [],
              init_frame 1 (unpack_version_info ?vd) ?fd] @
             map (packet_frame ?fd) [0..<65536],
        wfail = []\<rparr>"
    by simp
  show ?thesis
    using big run last small two one none unfolding st by blast
qed

text \<open>
  C7, as amended. \<open>read_response\<close> gives its caller one and the same result,
  \<^verbatim>\<open>(None, b'')\<close>, for a header cut short by a timeout, for a checksum byte that does not
  come, for a checksum that disagrees and for a code byte that is no response: the four
  causes take four branches of the function, each with its own message, and nothing in
  the returned value tells them apart.
\<close>

theorem receive_failures_share_one_result:
  assumes "is_open s"
  shows "(length bs < 2 \<and> rx s = map Byte bs @ Timeout # rest
       \<longrightarrow> read_frame s = (Inl HeaderShort, s\<lparr>rx := rest\<rparr>)
         \<and> read_response s = ((None, []), s\<lparr>rx := rest\<rparr>))
    \<and> (length payload \<le> 255
        \<and> rx s = Byte c # Byte (of_nat (length payload)) # map Byte payload @ Timeout # rest
       \<longrightarrow> read_frame s = (Inl ChecksumShort, s\<lparr>rx := rest\<rparr>)
         \<and> read_response s = ((None, []), s\<lparr>rx := rest\<rparr>))
    \<and> (length payload \<le> 255
        \<and> rx s = Byte c # Byte (of_nat (length payload)) # map Byte payload @ Byte x # rest
        \<and> x \<noteq> xor_checksum (c XOR of_nat (length payload)) payload
       \<longrightarrow> read_frame s = (Inl ChecksumMismatch, s\<lparr>rx := rest\<rparr>)
         \<and> read_response s = ((None, []), s\<lparr>rx := rest\<rparr>))
    \<and> (length payload \<le> 255 \<and> rx s = map Byte (frame_bytes c payload) @ rest
        \<and> Response_of c = None
       \<longrightarrow> read_frame s = (Inl UnknownCode, s\<lparr>rx := rest\<rparr>)
         \<and> read_response s = ((None, []), s\<lparr>rx := rest\<rparr>))"
proof (intro conjI impI)
  assume h: "length bs < 2 \<and> rx s = map Byte bs @ Timeout # rest"
  then show a: "read_frame s = (Inl HeaderShort, s\<lparr>rx := rest\<rparr>)"
    using read_frame_header_short [OF assms] by blast
  then show "read_response s = ((None, []), s\<lparr>rx := rest\<rparr>)"
    by (rule read_response_Inl)
next
  assume h: "length payload \<le> 255
      \<and> rx s = Byte c # Byte (of_nat (length payload)) # map Byte payload @ Timeout # rest"
  then show a: "read_frame s = (Inl ChecksumShort, s\<lparr>rx := rest\<rparr>)"
    using read_frame_checksum_short [OF assms] by blast
  then show "read_response s = ((None, []), s\<lparr>rx := rest\<rparr>)"
    by (rule read_response_Inl)
next
  assume h: "length payload \<le> 255
      \<and> rx s = Byte c # Byte (of_nat (length payload)) # map Byte payload @ Byte x # rest
      \<and> x \<noteq> xor_checksum (c XOR of_nat (length payload)) payload"
  then show a: "read_frame s = (Inl ChecksumMismatch, s\<lparr>rx := rest\<rparr>)"
    using read_frame_raw [OF assms, of payload c x rest] by auto
  then show "read_response s = ((None, []), s\<lparr>rx := rest\<rparr>)"
    by (rule read_response_Inl)
next
  assume h: "length payload \<le> 255 \<and> rx s = map Byte (frame_bytes c payload) @ rest
      \<and> Response_of c = None"
  then have "rx s = Byte c # Byte (of_nat (length payload)) # map Byte payload @
      Byte (xor_checksum (c XOR of_nat (length payload)) payload) # rest"
    by (simp add: frame_bytes_Cons)
  then show a: "read_frame s = (Inl UnknownCode, s\<lparr>rx := rest\<rparr>)"
    using read_frame_raw [OF assms, of payload c _ rest] h by auto
  then show "read_response s = ((None, []), s\<lparr>rx := rest\<rparr>)"
    by (rule read_response_Inl)
qed


theorem receive_failures_share_one_result_witness:
  "read_frame \<lparr>is_open = True, rx = [Byte 0x10, Timeout, Byte 0x12], tx = [], wfail = []\<rparr>
     = (Inl HeaderShort, \<lparr>is_open = True, rx = [Byte 0x12], tx = [], wfail = []\<rparr>)
   \<and> read_response \<lparr>is_open = True, rx = [Byte 0x10, Timeout, Byte 0x12], tx = [], wfail = []\<rparr>
     = ((None, []), \<lparr>is_open = True, rx = [Byte 0x12], tx = [], wfail = []\<rparr>)
   \<and> read_frame \<lparr>is_open = True, rx = [Byte 0x15, Byte 0x01, Byte 0x03, Timeout],
        tx = [], wfail = []\<rparr>
     = (Inl ChecksumShort, \<lparr>is_open = True, rx = [], tx = [], wfail = []\<rparr>)
   \<and> read_response \<lparr>is_open = True, rx = [Byte 0x15, Byte 0x01, Byte 0x03, Timeout],
        tx = [], wfail = []\<rparr>
     = ((None, []), \<lparr>is_open = True, rx = [], tx = [], wfail = []\<rparr>)
   \<and> read_frame \<lparr>is_open = True, rx = [Byte 0x15, Byte 0x01, Byte 0x03, Byte 0x00],
        tx = [], wfail = []\<rparr>
     = (Inl ChecksumMismatch, \<lparr>is_open = True, rx = [], tx = [], wfail = []\<rparr>)
   \<and> read_response \<lparr>is_open = True, rx = [Byte 0x15, Byte 0x01, Byte 0x03, Byte 0x00],
        tx = [], wfail = []\<rparr>
     = ((None, []), \<lparr>is_open = True, rx = [], tx = [], wfail = []\<rparr>)
   \<and> read_frame \<lparr>is_open = True, rx = [Byte 0x20, Byte 0x01, Byte 0x03, Byte 0x22],
        tx = [], wfail = []\<rparr>
     = (Inl UnknownCode, \<lparr>is_open = True, rx = [], tx = [], wfail = []\<rparr>)
   \<and> read_response \<lparr>is_open = True, rx = [Byte 0x20, Byte 0x01, Byte 0x03, Byte 0x22],
        tx = [], wfail = []\<rparr>
     = ((None, []), \<lparr>is_open = True, rx = [], tx = [], wfail = []\<rparr>)"
proof -
  let ?a = "\<lparr>is_open = True, rx = [Byte 0x10, Timeout, Byte 0x12], tx = [], wfail = []\<rparr>"
  let ?b = "\<lparr>is_open = True, rx = [Byte 0x15, Byte 0x01, Byte 0x03, Timeout],
      tx = [], wfail = []\<rparr>"
  let ?c = "\<lparr>is_open = True, rx = [Byte 0x15, Byte 0x01, Byte 0x03, Byte 0x00],
      tx = [], wfail = []\<rparr>"
  let ?d = "\<lparr>is_open = True, rx = [Byte 0x20, Byte 0x01, Byte 0x03, Byte 0x22],
      tx = [], wfail = []\<rparr>"
  have a: "read_frame ?a = (Inl HeaderShort, ?a\<lparr>rx := [Byte 0x12]\<rparr>)
      \<and> read_response ?a = ((None, []), ?a\<lparr>rx := [Byte 0x12]\<rparr>)"
    using receive_failures_share_one_result
        [where s = ?a and bs = "[0x10]" and rest = "[Byte 0x12]"] by simp
  have b: "read_frame ?b = (Inl ChecksumShort, ?b\<lparr>rx := []\<rparr>)
      \<and> read_response ?b = ((None, []), ?b\<lparr>rx := []\<rparr>)"
    using receive_failures_share_one_result
        [where s = ?b and payload = "[0x03]" and c = "0x15" and rest = "[]"] by simp
  have c: "read_frame ?c = (Inl ChecksumMismatch, ?c\<lparr>rx := []\<rparr>)
      \<and> read_response ?c = ((None, []), ?c\<lparr>rx := []\<rparr>)"
    using receive_failures_share_one_result
        [where s = ?c and payload = "[0x03]" and c = "0x15" and x = "0x00" and rest = "[]"] by simp
  have d: "read_frame ?d = (Inl UnknownCode, ?d\<lparr>rx := []\<rparr>)
      \<and> read_response ?d = ((None, []), ?d\<lparr>rx := []\<rparr>)"
    using receive_failures_share_one_result
        [where s = ?d and payload = "[0x03]" and c = "0x20" and rest = "[]"]
    by (simp add: frame_bytes_def Response_of_def)
  show ?thesis
    using a b c d by simp
qed

text \<open>
  C7 as the specification states it fails: a stream that stops after one byte, a frame
  whose checksum byte is wrong and a well-formed frame with the code 0x20 take three
  different failure branches, and the caller gets the same value in all three.
\<close>

theorem receive_failures_counterexample:
  "fst (read_frame \<lparr>is_open = True, rx = [Byte 0x10], tx = [], wfail = []\<rparr>) = Inl HeaderShort
   \<and> fst (read_frame \<lparr>is_open = True, rx = [Byte 0x10, Byte 0x00, Byte 0x11],
          tx = [], wfail = []\<rparr>) = Inl ChecksumMismatch
   \<and> fst (read_frame \<lparr>is_open = True, rx = [Byte 0x20, Byte 0x00, Byte 0x20],
          tx = [], wfail = []\<rparr>) = Inl UnknownCode
   \<and> fst (read_response \<lparr>is_open = True, rx = [Byte 0x10], tx = [], wfail = []\<rparr>)
       = (None, [])
   \<and> fst (read_response \<lparr>is_open = True, rx = [Byte 0x10, Byte 0x00, Byte 0x11],
          tx = [], wfail = []\<rparr>) = (None, [])
   \<and> fst (read_response \<lparr>is_open = True, rx = [Byte 0x20, Byte 0x00, Byte 0x20],
          tx = [], wfail = []\<rparr>) = (None, [])"
  by (simp add: read_response_def read_frame_def Response_of_def serial_read_two)

text \<open>
  C8, as amended. For a frame built around any code byte and a payload of at most 255
  bytes, flipping one bit of the code byte, of a payload byte or of the checksum byte
  makes \<open>read_response\<close> fail at the checksum comparison: it takes the branch that reports
  the checksum error and returns \<^verbatim>\<open>(None, b'')\<close>, having read exactly the bytes of the
  frame. The length byte, at index 1, is left out.
\<close>

theorem checksum_sensitivity:
  assumes "is_open s" and "length payload \<le> 255" and "k < 8"
    and "i < length (frame_bytes c payload)" and "i \<noteq> 1"
    and "rx s = map Byte ((frame_bytes c payload)[i := flip_bit k (frame_bytes c payload ! i)])
           @ rest"
  shows "build_packet c payload = Some (frame_bytes c payload)
    \<and> read_frame s = (Inl ChecksumMismatch, s\<lparr>rx := rest\<rparr>)
    \<and> read_response s = ((None, []), s\<lparr>rx := rest\<rparr>)"
proof -
  have "read_frame s = (Inl ChecksumMismatch, s\<lparr>rx := rest\<rparr>)"
    using assms by (rule read_frame_flipped)
  then show ?thesis
    using assms(2) by (simp add: read_response_Inl build_packet_def)
qed

theorem checksum_sensitivity_witness:
  "build_packet 0x15 [0x03] = Some [0x15, 0x01, 0x03, 0x17]
   \<and> [0x15, 0x01, 0x03, 0x17 :: byte][2 := flip_bit 7 ([0x15, 0x01, 0x03, 0x17] ! 2)]
       = [0x15, 0x01, 0x83, 0x17]
   \<and> read_frame \<lparr>is_open = True, rx = map Byte [0x15, 0x01, 0x83, 0x17] @ [Byte 0x10],
        tx = [], wfail = []\<rparr>
       = (Inl ChecksumMismatch, \<lparr>is_open = True, rx = [Byte 0x10], tx = [], wfail = []\<rparr>)
   \<and> read_response \<lparr>is_open = True, rx = map Byte [0x15, 0x01, 0x83, 0x17] @ [Byte 0x10],
        tx = [], wfail = []\<rparr>
       = ((None, []), \<lparr>is_open = True, rx = [Byte 0x10], tx = [], wfail = []\<rparr>)"
proof -
  let ?s = "\<lparr>is_open = True, rx = map Byte [0x15, 0x01, 0x83, 0x17] @ [Byte 0x10],
      tx = [], wfail = []\<rparr>"
  have f: "frame_bytes 0x15 [0x03] = [0x15, 0x01, 0x03, 0x17]"
    by (simp add: frame_bytes_def)
  have g: "flip_bit 7 (0x03 :: byte) = 0x83"
    by (simp add: flip_bit_eq_xor)
  have h: "rx ?s = map Byte ((frame_bytes 0x15 [0x03])
      [2 := flip_bit 7 (frame_bytes 0x15 [0x03] ! 2)]) @ [Byte 0x10]"
    unfolding f by (simp add: g)
  have "build_packet 0x15 [0x03] = Some (frame_bytes 0x15 [0x03])
      \<and> read_frame ?s = (Inl ChecksumMismatch, ?s\<lparr>rx := [Byte 0x10]\<rparr>)
      \<and> read_response ?s = ((None, []), ?s\<lparr>rx := [Byte 0x10]\<rparr>)"
    by (rule checksum_sensitivity
          [where s = ?s and payload = "[0x03]" and k = 7 and c = "0x15" and i = 2
             and rest = "[Byte 0x10]", OF _ _ _ _ _ h])
      (simp_all add: f)
  then show ?thesis
    unfolding f by (simp add: g)
qed

text \<open>
  C8 as the specification states it fails at the length byte. The ERROR frame with the
  one-byte payload 0x15 is 15 01 15 01; with bit 0 of its length byte flipped it reads as
  an ERROR frame with no payload and the checksum 0x15, which is right, so the decoding
  succeeds and leaves one byte behind. The ACK frame with no payload is 10 00 10; with the
  same flip the byte 0x10 is taken as payload and the checksum byte does not come: the
  failure is the short read, not the checksum.
\<close>

theorem checksum_sensitivity_counterexample:
  "build_packet (response_value ERROR) [0x15] = Some [0x15, 0x01, 0x15, 0x01]
   \<and> [0x15, 0x01, 0x15, 0x01 :: byte][1 := flip_bit 0 ([0x15, 0x01, 0x15, 0x01] ! 1)]
       = [0x15, 0x00, 0x15, 0x01]
   \<and> read_frame \<lparr>is_open = True, rx = map Byte [0x15, 0x00, 0x15, 0x01], tx = [], wfail = []\<rparr>
       = (Inr (ERROR, []), \<lparr>is_open = True, rx = [Byte 0x01], tx = [], wfail = []\<rparr>)
   \<and> read_response
         \<lparr>is_open = True, rx = map Byte [0x15, 0x00, 0x15, 0x01], tx = [], wfail = []\<rparr>
       = ((Some ERROR, []), \<lparr>is_open = True, rx = [Byte 0x01], tx = [], wfail = []\<rparr>)
   \<and> build_packet (response_value ACK) [] = Some [0x10, 0x00, 0x10]
   \<and> [0x10, 0x00, 0x10 :: byte][1 := flip_bit 0 ([0x10, 0x00, 0x10] ! 1)] = [0x10, 0x01, 0x10]
   \<and> read_frame \<lparr>is_open = True, rx = map Byte [0x10, 0x01, 0x10], tx = [], wfail = []\<rparr>
       = (Inl ChecksumShort, \<lparr>is_open = True, rx = [], tx = [], wfail = []\<rparr>)"
  by (simp add: build_packet_def frame_bytes_def flip_bit_eq_xor read_response_def
      read_frame_def Response_of_def serial_read_two)

end
